theory Spec2Isabelle
  imports Complex_Main
begin

section \<open>Stage-scanning OPM notebook: scan geometry\<close>

text \<open>
  The notebook computes with Python and NumPy floating-point numbers. They are modelled
  as exact reals: every quantity below is the value the arithmetic denotes, without the
  rounding error of IEEE doubles. \<^verbatim>\<open>np.abs\<close> is \<open>abs\<close>, \<^verbatim>\<open>np.rint\<close> rounds to the
  nearest integer with ties going to the even neighbour, and \<^verbatim>\<open>np.round(x, 2)\<close> is
  \<^verbatim>\<open>rint(x * 100) / 100\<close>.
\<close>

datatype error =
    ZeroDivisionError
  | NameError
  | IndexError
  | ValueError
  | Empty

definition rint :: "real \<Rightarrow> int" where
  "rint x =
     (let f = \<lfloor>x\<rfloor>; d = x - of_int f
      in if d < 1 / 2 then f
         else if 1 / 2 < d then f + 1
         else if even f then f else f + 1)"

definition np_round2 :: "real \<Rightarrow> real" where
  "np_round2 x = of_int (rint (x * 100)) / 100"

text \<open>
  \<^verbatim>\<open>np.rint(a / b).astype(int)\<close> on NumPy floats. A zero divisor raises nothing: the
  quotient is \<open>inf\<close> or \<open>nan\<close>, with a warning. The cast is a cast to a 64-bit integer; of
  \<open>inf\<close>, of \<open>nan\<close> and of a value outside the 64-bit range it gives the least 64-bit
  integer.
\<close>

definition INT64_MIN :: int where
  "INT64_MIN = - (2 ^ 63)"

definition astype_int :: "int \<Rightarrow> int" where
  "astype_int n = (if - (2 ^ 63) \<le> n \<and> n < 2 ^ 63 then n else INT64_MIN)"

definition rint_div :: "real \<Rightarrow> real \<Rightarrow> int" where
  "rint_div a b = (if b = 0 then INT64_MIN else astype_int (rint (a / b)))"

record scan_axis =
  scan_axis_step_mm :: real
  scan_axis_start_mm :: real
  scan_axis_end_mm :: real
  scan_axis_range_um :: real
  scan_axis_range_mm :: real
  actual_exposure_s :: real
  scan_axis_speed :: real
  scan_axis_positions :: int

text \<open>
  The scan-axis part of the geometry cell. \<^verbatim>\<open>actual_readout_ms\<close> is read by the cell but
  assigned nowhere in the notebook, so it is a parameter here. The speed is a quotient of
  two Python floats, which raises \<^verbatim>\<open>ZeroDivisionError\<close> on a zero exposure, before the
  position count is computed.
\<close>

definition scan_axis_setup :: "real \<Rightarrow> real \<Rightarrow> real \<Rightarrow> real \<Rightarrow> error + scan_axis" where
  "scan_axis_setup scan_axis_step_um scan_axis_start_um scan_axis_end_um actual_readout_ms =
     (let step_mm = scan_axis_step_um / 1000;
          start_mm = scan_axis_start_um / 1000;
          end_mm = scan_axis_end_um / 1000;
          range_um = \<bar>scan_axis_end_um - scan_axis_start_um\<bar>;
          range_mm = range_um / 1000;
          exposure_s = actual_readout_ms / 1000
      in if exposure_s = 0 then Inl ZeroDivisionError
         else
           (let speed = np_round2 (step_mm / exposure_s);
                n = rint_div range_mm step_mm
            in Inr \<lparr>scan_axis_step_mm = step_mm, scan_axis_start_mm = start_mm,
                    scan_axis_end_mm = end_mm, scan_axis_range_um = range_um,
                    scan_axis_range_mm = range_mm, actual_exposure_s = exposure_s,
                    scan_axis_speed = speed, scan_axis_positions = n\<rparr>))"

record tile_axis =
  tile_axis_overlap :: real
  tile_axis_range_um :: real
  tile_axis_range_mm :: real
  tile_axis_ROI :: real
  tile_axis_step_um :: real
  tile_axis_step_mm :: real
  tile_axis_positions :: int

text \<open>
  The tile-axis part: \<open>ROI\<close> is the list of four pixel numbers of the camera cell, of
  which the tile axis reads \<^verbatim>\<open>ROI[3]\<close>.
\<close>

definition tile_axis_setup :: "int list \<Rightarrow> real \<Rightarrow> real \<Rightarrow> real \<Rightarrow> error + tile_axis" where
  "tile_axis_setup ROI pixel_size_um tile_axis_start_um tile_axis_end_um =
     (let overlap = 0.2;
          range_um = \<bar>tile_axis_end_um - tile_axis_start_um\<bar>;
          range_mm = range_um / 1000
      in if length ROI \<le> 3 then Inl IndexError
         else
           (let roi = of_int (ROI ! 3) * pixel_size_um;
                step_um = np_round2 (roi * (1 - overlap));
                step_mm = step_um / 1000;
                n = rint_div range_mm step_mm
            in Inr \<lparr>tile_axis_overlap = overlap, tile_axis_range_um = range_um,
                    tile_axis_range_mm = range_mm, tile_axis_ROI = roi,
                    tile_axis_step_um = step_um, tile_axis_step_mm = step_mm,
                    tile_axis_positions = (if n = 0 then 1 else n)\<rparr>))"

record height_axis =
  height_axis_overlap :: real
  height_axis_range_um :: real
  height_axis_range_mm :: real
  height_axis_ROI :: real
  height_axis_step_um :: real
  height_axis_step_mm :: real
  height_axis_positions :: int

text \<open>
  The height-axis part reads \<^verbatim>\<open>ROI[2]\<close> and scales it by the sine of the 30 degree tilt
  of the light sheet.
\<close>

definition height_axis_setup :: "int list \<Rightarrow> real \<Rightarrow> real \<Rightarrow> real \<Rightarrow> error + height_axis" where
  "height_axis_setup ROI pixel_size_um height_axis_start_um height_axis_end_um =
     (let overlap = 0.2;
          range_um = \<bar>height_axis_end_um - height_axis_start_um\<bar>;
          range_mm = range_um / 1000
      in if length ROI \<le> 2 then Inl IndexError
         else
           (let roi = of_int (ROI ! 2) * pixel_size_um * sin (30 * (pi / 180));
                step_um = np_round2 (roi * (1 - overlap));
                step_mm = step_um / 1000;
                n = rint_div range_mm step_mm
            in Inr \<lparr>height_axis_overlap = overlap, height_axis_range_um = range_um,
                    height_axis_range_mm = range_mm, height_axis_ROI = roi,
                    height_axis_step_um = step_um, height_axis_step_mm = step_mm,
                    height_axis_positions = (if n = 0 then 1 else n)\<rparr>))"

section \<open>Stage-scanning OPM notebook: the acquisition-event list\<close>

text \<open>
  The laser cell builds \<^verbatim>\<open>channel_states\<close> from the five state variables of the user,
  in this order.
\<close>

definition channel_states :: "int \<Rightarrow> int \<Rightarrow> int \<Rightarrow> int \<Rightarrow> int \<Rightarrow> int list" where
  "channel_states state_405 state_488 state_561 state_635 state_730 =
     [state_405, state_488, state_561, state_635, state_730]"

text \<open>Python values as far as the event dictionaries need them; a dictionary keeps its keys in insertion order.\<close>

datatype pyval =
    PInt int
  | PFloat real
  | PStr string
  | PDict "(string \<times> pyval) list"

text \<open>The dictionary every branch of the \<^verbatim>\<open>if c == ...\<close> chain builds; only the configuration name differs.\<close>

definition mk_evt :: "nat \<Rightarrow> nat \<Rightarrow> nat \<Rightarrow> real \<Rightarrow> real \<Rightarrow> real \<Rightarrow> string \<Rightarrow> pyval" where
  "mk_evt x y z scan_axis_start_um tile_position_um height_position_um config =
     PDict [(''axes'', PDict [(''x'', PInt (int x)), (''y'', PInt (int y)), (''z'', PInt (int z))]),
            (''x'', PFloat scan_axis_start_um),
            (''y'', PFloat tile_position_um),
            (''z'', PFloat height_position_um),
            (''channel'', PDict [(''group'', PStr ''Coherent-State''), (''config'', PStr config)])]"

text \<open>
  The loop state is the variable \<^verbatim>\<open>evt\<close> (unbound before its first assignment) and the
  list \<^verbatim>\<open>events\<close>. The chain over \<open>c\<close> has no final \<^verbatim>\<open>else\<close>: for an index above four
  \<^verbatim>\<open>evt\<close> keeps its previous value, and appending an unbound \<^verbatim>\<open>evt\<close> raises
  \<^verbatim>\<open>NameError\<close>.
\<close>

type_synonym loop_state = "pyval option \<times> pyval list"

definition scan_body ::
  "int list \<Rightarrow> real \<Rightarrow> real \<Rightarrow> real \<Rightarrow> nat \<Rightarrow> nat \<Rightarrow> nat \<Rightarrow> nat \<Rightarrow> loop_state \<Rightarrow> error + loop_state" where
  "scan_body chs scan_axis_start_um tile_position_um height_position_um y z c x st =
     (if chs ! c = 1 then
        (let evt =
           (if c = 0 then
              Some (mk_evt x y z scan_axis_start_um tile_position_um height_position_um ''405nm'')
            else if c = 1 then
              Some (mk_evt x y z scan_axis_start_um tile_position_um height_position_um ''488nm'')
            else if c = 2 then
              Some (mk_evt x y z scan_axis_start_um tile_position_um height_position_um ''561nm'')
            else if c = 3 then
              Some (mk_evt x y z scan_axis_start_um tile_position_um height_position_um ''637nm'')
            else if c = 4 then
              Some (mk_evt x y z scan_axis_start_um tile_position_um height_position_um ''730nm'')
            else fst st)
         in case evt of
              None \<Rightarrow> Inl NameError
            | Some e \<Rightarrow> Inr (Some e, snd st @ [e]))
      else Inr st)"

text \<open>A \<^verbatim>\<open>for\<close> loop over a list of indices, stopping at the first exception.\<close>

fun for_loop :: "nat list \<Rightarrow> (nat \<Rightarrow> 's \<Rightarrow> error + 's) \<Rightarrow> 's \<Rightarrow> error + 's" where
  "for_loop [] body s = Inr s"
| "for_loop (i # is) body s =
     (case body i s of Inl e \<Rightarrow> Inl e | Inr s' \<Rightarrow> for_loop is body s')"

text \<open>\<^verbatim>\<open>range(n)\<close>: empty for a count that is zero or negative.\<close>

definition py_range :: "int \<Rightarrow> nat list" where
  "py_range n = [0..<nat n]"

definition channel_loop ::
  "int list \<Rightarrow> real \<Rightarrow> real \<Rightarrow> real \<Rightarrow> int \<Rightarrow> nat \<Rightarrow> nat \<Rightarrow> loop_state \<Rightarrow> error + loop_state" where
  "channel_loop chs scan_axis_start_um tile_position_um height_position_um n_scan y z =
     for_loop (py_range (int (length chs)))
       (\<lambda>c. for_loop (py_range n_scan)
          (scan_body chs scan_axis_start_um tile_position_um height_position_um y z c))"

definition height_loop ::
  "int list \<Rightarrow> real \<Rightarrow> real \<Rightarrow> height_axis \<Rightarrow> real \<Rightarrow> int \<Rightarrow> nat \<Rightarrow> loop_state \<Rightarrow> error + loop_state" where
  "height_loop chs scan_axis_start_um height_axis_start_um h tile_position_um n_scan y =
     for_loop (py_range (height_axis_positions h))
       (\<lambda>z. let height_position_um = height_axis_start_um + height_axis_step_um h * real z
            in channel_loop chs scan_axis_start_um tile_position_um height_position_um n_scan y z)"

text \<open>
  The event cell: it reads the channel states, the three start positions of the user and
  the step sizes and position counts that the geometry cell left in the three axes.
\<close>

definition events ::
  "int list \<Rightarrow> real \<Rightarrow> real \<Rightarrow> real \<Rightarrow> scan_axis \<Rightarrow> tile_axis \<Rightarrow> height_axis \<Rightarrow> error + pyval list" where
  "events chs scan_axis_start_um tile_axis_start_um height_axis_start_um s t h =
     (case for_loop (py_range (tile_axis_positions t))
             (\<lambda>y. let tile_position_um = tile_axis_start_um + tile_axis_step_um t * real y
                  in height_loop chs scan_axis_start_um height_axis_start_um h tile_position_um
                       (scan_axis_positions s) y)
             (None, [])
      of Inl e \<Rightarrow> Inl e
       | Inr st \<Rightarrow> Inr (snd st))"

text \<open>
  The list the description of the cell speaks of, written as nested comprehensions: tile
  outermost, then height, then channel, then scan step, one event for every scan step of
  every channel whose state is 1.
\<close>

definition config_name :: "nat \<Rightarrow> string" where
  "config_name c = [''405nm'', ''488nm'', ''561nm'', ''637nm'', ''730nm''] ! c"

definition events_in_order ::
  "int list \<Rightarrow> real \<Rightarrow> real \<Rightarrow> real \<Rightarrow> scan_axis \<Rightarrow> tile_axis \<Rightarrow> height_axis \<Rightarrow> pyval list" where
  "events_in_order chs scan_axis_start_um tile_axis_start_um height_axis_start_um s t h =
     concat (map (\<lambda>y.
       concat (map (\<lambda>z.
         concat (map (\<lambda>c.
           if chs ! c = 1 then
             map (\<lambda>x. mk_evt x y z scan_axis_start_um
                        (tile_axis_start_um + tile_axis_step_um t * real y)
                        (height_axis_start_um + height_axis_step_um h * real z)
                        (config_name c))
               [0..<nat (scan_axis_positions s)]
           else [])
           [0..<length chs]))
         [0..<nat (height_axis_positions h)]))
       [0..<nat (tile_axis_positions t)])"

text \<open>Reading an event: a key of a dictionary, and the entries of its \<^verbatim>\<open>'axes'\<close> dictionary.\<close>

fun lookup :: "string \<Rightarrow> pyval \<Rightarrow> pyval option" where
  "lookup k (PDict kvs) = map_of kvs k"
| "lookup k _ = None"

fun entries :: "pyval option \<Rightarrow> (string \<times> pyval) list" where
  "entries (Some (PDict kvs)) = kvs"
| "entries _ = []"

section \<open>Stage-scanning OPM notebook: waiting for the controller\<close>

text \<open>
  The Tiger controller as the hook sees it: the two properties it writes, the variable
  \<^verbatim>\<open>ready\<close>, the number of \<^verbatim>\<open>STATUS\<close> commands sent so far and the time spent in
  \<^verbatim>\<open>sleep\<close>, in milliseconds. The controller itself is the function \<open>resp\<close>: its answer
  to the \<open>k\<close>-th \<^verbatim>\<open>STATUS\<close> command.
\<close>

record tiger =
  only_send_on_change :: string
  serial_command :: string
  ready :: string
  polls :: nat
  slept_ms :: nat

definition poll_once :: "(nat \<Rightarrow> string) \<Rightarrow> tiger \<Rightarrow> tiger" where
  "poll_once resp t =
     t\<lparr>serial_command := ''STATUS'', ready := resp (polls t),
       polls := polls t + 1, slept_ms := slept_ms t + 500\<rparr>"

partial_function (option) wait_not_busy :: "(nat \<Rightarrow> string) \<Rightarrow> tiger \<Rightarrow> tiger option" where
  "wait_not_busy resp t =
     (if ready t \<noteq> ''N'' then wait_not_busy resp (poll_once resp t) else Some t)"

text \<open>The hook returns its event unchanged, if it returns: \<open>None\<close> is a loop that never ends.\<close>

definition post_hardware_hook :: "(nat \<Rightarrow> string) \<Rightarrow> 'e \<Rightarrow> tiger \<Rightarrow> ('e \<times> tiger) option" where
  "post_hardware_hook resp event t =
     (case wait_not_busy resp (t\<lparr>only_send_on_change := ''No'', ready := ''B''\<rparr>) of
        None \<Rightarrow> None
      | Some t' \<Rightarrow> Some (event, t'\<lparr>only_send_on_change := ''Yes''\<rparr>))"

section \<open>PSF viewer notebook\<close>

text \<open>
  An image is a list of rows of pixel values. A queue element is the list
  \<^verbatim>\<open>[channel, z, np.ravel(image)]\<close> that \<^verbatim>\<open>place_data\<close> puts into the queue.
\<close>

type_synonym image = "real list list"

type_synonym pos_img = "int \<times> int \<times> real list"

datatype worker = AppendImg | YieldImg

text \<open>
  The global variables of the notebook. \<open>z_range\<close> is the list
  \<^verbatim>\<open>[start, end, number of slices, active slice]\<close>, \<open>channels\<close> the list
  \<^verbatim>\<open>[number of channels, active channel]\<close>. \<open>img_queue\<close> holds the elements of the
  \<^verbatim>\<open>queue.Queue\<close>, oldest first, and \<open>unfinished_tasks\<close> is the counter of that queue
  that \<^verbatim>\<open>put\<close> raises and \<^verbatim>\<open>task_done\<close> lowers. \<open>data\<close> is the image stack, one image for
  each z-slice, and \<open>data_shape\<close> the shape of a slice, \<^verbatim>\<open>data.shape[1:]\<close>: its number of
  rows and the length of a row. The notebook allocates the stack with the shape
  \<^verbatim>\<open>(z_range[2], clip[0], clip[1])\<close>, but nothing keeps \<^verbatim>\<open>clip\<close> from a later change. All
  layers of the viewer share that one array; \<open>refreshed\<close> lists the layers whose
  \<^verbatim>\<open>data\<close> attribute was assigned, and \<open>workers\<close> the worker threads started so far.
\<close>

record viewer =
  acq_running :: bool
  z_range :: "int list"
  channels :: "int list"
  img_queue :: "pos_img list"
  unfinished_tasks :: nat
  data :: "image list"
  data_shape :: "nat \<times> nat"
  n_layers :: nat
  refreshed :: "nat list"
  workers :: "worker list"

text \<open>
  An exception leaves the globals as they are at the \<^verbatim>\<open>raise\<close>: the outcome of a call is
  the new state, or the exception together with the state it left behind.
\<close>

type_synonym 's outcome = "(error \<times> 's) + 's"

definition place_data :: "image \<Rightarrow> viewer \<Rightarrow> viewer outcome" where
  "place_data img s =
     (if length (channels s) \<le> 1 \<or> length (z_range s) \<le> 3 then Inl (IndexError, s)
      else
        (let s1 = s\<lparr>img_queue := img_queue s @ [(channels s ! 1, z_range s ! 3, concat img)],
                    unfinished_tasks := unfinished_tasks s + 1\<rparr>
         in if z_range s1 ! 2 = 0 then Inl (ZeroDivisionError, s1)
            else
              (let s2 = s1\<lparr>z_range := (z_range s1)[3 := (z_range s1 ! 3 + 1) mod (z_range s1 ! 2)]\<rparr>
               in if z_range s2 ! 3 = 0 then
                    (if channels s2 ! 0 = 0 then Inl (ZeroDivisionError, s2)
                     else Inr (s2\<lparr>channels :=
                                 (channels s2)[1 := (channels s2 ! 1 + 1) mod (channels s2 ! 0)]\<rparr>))
                  else Inr s2)))"

text \<open>An integer index into a sequence of length \<open>n\<close>: a negative index counts from the end.\<close>

definition py_index :: "nat \<Rightarrow> int \<Rightarrow> nat option" where
  "py_index n i =
     (if 0 \<le> i \<and> i < int n then Some (nat i)
      else if - int n \<le> i \<and> i < 0 then Some (nat (int n + i))
      else None)"

text \<open>\<^verbatim>\<open>np.reshape\<close> of a flat array to \<open>r\<close> rows of \<open>c\<close> pixels, row by row.\<close>

definition reshape :: "real list \<Rightarrow> nat \<Rightarrow> nat \<Rightarrow> image" where
  "reshape pix r c = map (\<lambda>i. take c (drop (i * c) pix)) [0..<r]"

text \<open>
  The slice that \<^verbatim>\<open>data[z_pos] = np.squeeze(image)\<close> writes, for an image of \<open>r\<close> rows of
  \<open>c\<close> pixels and a slice of shape \<open>(R, C)\<close>. \<^verbatim>\<open>np.squeeze\<close> drops every axis of
  length one, and the assignment broadcasts what is left to the shape of the slice or
  raises \<^verbatim>\<open>ValueError\<close>. An image with no axis of length one must have the shape of the slice.
  An image with one such axis becomes a vector, which must have the length of a row of the
  slice and is copied into every row. An image of one pixel becomes a scalar, which fills
  the slice.
\<close>

definition squeeze_assign :: "nat \<times> nat \<Rightarrow> nat \<Rightarrow> nat \<Rightarrow> real list \<Rightarrow> error + image" where
  "squeeze_assign shp r c pix =
     (case shp of (R, C) \<Rightarrow>
        if r \<noteq> 1 \<and> c \<noteq> 1 then
          (if r = R \<and> c = C then Inr (reshape pix r c) else Inl ValueError)
        else if r = 1 \<and> c = 1 then Inr (replicate R (replicate C (pix ! 0)))
        else if length pix = C then Inr (replicate R pix)
        else Inl ValueError)"

text \<open>
  The display update. \<^verbatim>\<open>np.reshape\<close> raises \<^verbatim>\<open>ValueError\<close> when the element does not hold
  \<^verbatim>\<open>clip[0] * clip[1]\<close> pixels. The slice is written before the layer is looked up, so an
  exception after that point leaves the new slice in place.
\<close>

definition display_napari :: "nat list \<Rightarrow> pos_img option \<Rightarrow> viewer \<Rightarrow> viewer outcome" where
  "display_napari clip pos_img s =
     (case pos_img of
        None \<Rightarrow> Inr s
      | Some (color, z_pos, pix) \<Rightarrow>
          if length clip \<le> 1 then Inl (IndexError, s)
          else if length pix \<noteq> clip ! 0 * clip ! 1 then Inl (ValueError, s)
          else
            (case py_index (length (data s)) z_pos of
               None \<Rightarrow> Inl (IndexError, s)
             | Some k \<Rightarrow>
                 (case squeeze_assign (data_shape s) (clip ! 0) (clip ! 1) pix of
                    Inl e \<Rightarrow> Inl (e, s)
                  | Inr slice \<Rightarrow>
                      (let s1 = s\<lparr>data := (data s)[k := slice]\<rparr>
                       in case py_index (n_layers s1) color of
                            None \<Rightarrow> Inl (IndexError, s1)
                          | Some l \<Rightarrow>
                              (let s2 = s1\<lparr>refreshed := refreshed s1 @ [l]\<rparr>
                               in if unfinished_tasks s2 = 0 then Inl (ValueError, s2)
                                  else Inr (s2\<lparr>unfinished_tasks := unfinished_tasks s2 - 1\<rparr>))))))"

text \<open>
  The Start button. It returns the printed lines and the outcome. The worker of
  \<^verbatim>\<open>yield_img\<close> is connected to the display update and starts when it is created; the
  worker of \<^verbatim>\<open>append_img\<close> is started by hand after it.
\<close>

definition start_acq :: "viewer \<Rightarrow> string list \<times> viewer outcome" where
  "start_acq s =
     (if \<not> acq_running s then
        (if length (z_range s) \<le> 3 then ([''starting threads...''], Inl (IndexError, s))
         else ([''starting threads...''],
               Inr (s\<lparr>z_range := (z_range s)[3 := 0], acq_running := True,
                       workers := workers s @ [YieldImg, AppendImg]\<rparr>)))
      else ([''starting threads...'', ''acquisition already running!''], Inr s))"

subsection \<open>The consumer worker and its environment\<close>

text \<open>
  \<^verbatim>\<open>yield_img\<close> as a machine with a program counter: the test of the outer loop, the
  sleep, the test of the inner loop, its \<^verbatim>\<open>get\<close>, the test of the draining loop, its
  \<^verbatim>\<open>get\<close>, the end of the generator, or the exception \<^verbatim>\<open>get(block = False)\<close> raises on
  an empty queue. \<open>yielded\<close> are the elements handed to the display update, in order.
\<close>

datatype pc = Outer | Sleeping | Inner | InnerGet | Drain | DrainGet | Finished | Raised error

record sys = viewer +
  pc :: pc
  yielded :: "pos_img list"

definition yield_img_step :: "sys \<Rightarrow> sys" where
  "yield_img_step s =
     (case pc s of
        Outer \<Rightarrow> if acq_running s then s\<lparr>pc := Sleeping\<rparr> else s\<lparr>pc := Drain\<rparr>
      | Sleeping \<Rightarrow> s\<lparr>pc := Inner\<rparr>
      | Inner \<Rightarrow> if 1 < length (img_queue s) then s\<lparr>pc := InnerGet\<rparr> else s\<lparr>pc := Outer\<rparr>
      | InnerGet \<Rightarrow>
          (case img_queue s of
             [] \<Rightarrow> s\<lparr>pc := Raised Empty\<rparr>
           | x # q \<Rightarrow> s\<lparr>img_queue := q, yielded := yielded s @ [x], pc := Inner\<rparr>)
      | Drain \<Rightarrow> if 0 < length (img_queue s) then s\<lparr>pc := DrainGet\<rparr> else s\<lparr>pc := Finished\<rparr>
      | DrainGet \<Rightarrow>
          (case img_queue s of
             [] \<Rightarrow> s\<lparr>pc := Raised Empty\<rparr>
           | x # q \<Rightarrow> s\<lparr>img_queue := q, yielded := yielded s @ [x], pc := Drain\<rparr>)
      | Finished \<Rightarrow> s
      | Raised e \<Rightarrow> s)"

text \<open>
  The other threads act between any two steps of the consumer: the producer puts an
  element into the queue, the Stop button clears the flag, and the Start button runs
  \<open>start_acq\<close> on the globals (whether it returns or raises, the globals are as it left
  them). A schedule is the list of the actions in the order they happen. The workers that
  a Start creates are in \<open>workers\<close>; the machine follows the one consumer it began
  with, and a schedule has no step of another consumer.
\<close>

datatype action = Consumer | Put pos_img | Stop | Start

fun exec :: "action \<Rightarrow> sys \<Rightarrow> sys" where
  "exec Consumer s = yield_img_step s"
| "exec (Put x) s = s\<lparr>img_queue := img_queue s @ [x], unfinished_tasks := unfinished_tasks s + 1\<rparr>"
| "exec Stop s = s\<lparr>acq_running := False\<rparr>"
| "exec Start s =
     (case snd (start_acq (viewer.truncate s)) of
        Inl (e, v) \<Rightarrow> viewer.extend v (viewer.more s)
      | Inr v \<Rightarrow> viewer.extend v (viewer.more s))"

fun run :: "action list \<Rightarrow> sys \<Rightarrow> sys" where
  "run [] s = s"
| "run (a # as) s = run as (exec a s)"

fun puts :: "action list \<Rightarrow> pos_img list" where
  "puts [] = []"
| "puts (Put x # as) = x # puts as"
| "puts (a # as) = puts as"

text \<open>
  A schedule without a restart: every Start in it happens while the flag is set, where it
  only prints and creates no worker.
\<close>

fun no_restart :: "action list \<Rightarrow> sys \<Rightarrow> bool" where
  "no_restart [] s = True"
| "no_restart (a # as) s = ((a = Start \<longrightarrow> acq_running s) \<and> no_restart as (exec a s))"

text \<open>
  What holds of the consumer between any two actions of a schedule without a restart: it
  is about to \<^verbatim>\<open>get\<close> only from a queue that is long enough, it is in its draining loop
  only while the flag is cleared, and it has not raised.
\<close>

definition consumer_inv :: "sys \<Rightarrow> bool" where
  "consumer_inv s \<longleftrightarrow>
     (pc s = InnerGet \<longrightarrow> 1 < length (img_queue s)) \<and>
     (pc s = DrainGet \<longrightarrow> 0 < length (img_queue s)) \<and>
     (pc s = Drain \<or> pc s = DrainGet \<or> pc s = Finished \<longrightarrow> \<not> acq_running s) \<and>
     (\<forall>e. pc s \<noteq> Raised e)"

section \<open>Properties of the scan geometry\<close>

lemma rint_nonneg: "0 \<le> x \<Longrightarrow> 0 \<le> rint x"
  by (simp add: rint_def Let_def)

lemma rint_zero: "rint 0 = 0"
  by (simp add: rint_def)

lemma rint_le: "x \<le> 2 ^ 63 - 1 \<Longrightarrow> rint x < 2 ^ 63"
proof -
  assume a: "x \<le> 2 ^ 63 - 1"
  have "of_int (rint x) \<le> x + 1 / 2"
    unfolding rint_def Let_def by (simp split: if_splits; linarith)
  with a have "(of_int (rint x) :: real) < 2 ^ 63" by simp
  then have "(of_int (rint x) :: real) < of_int (2 ^ 63)" by simp
  then show ?thesis by (simp only: of_int_less_iff)
qed

lemma astype_int_id: "0 \<le> n \<Longrightarrow> n < 2 ^ 63 \<Longrightarrow> astype_int n = n"
  by (simp add: astype_int_def)

lemma rint_div_nonneg:
  assumes "0 < b" and "0 \<le> a" and "a / b \<le> 2 ^ 63 - 1"
  shows "rint_div a b = rint (a / b)" and "0 \<le> rint_div a b"
proof -
  from assms have q: "0 \<le> a / b" by simp
  from assms(1) have "rint_div a b = astype_int (rint (a / b))"
    by (simp add: rint_div_def)
  also have "\<dots> = rint (a / b)"
    by (rule astype_int_id) (rule rint_nonneg [OF q], rule rint_le [OF assms(3)])
  finally show "rint_div a b = rint (a / b)" .
  then show "0 \<le> rint_div a b"
    using rint_nonneg [OF q] by simp
qed

lemma rint_div_zero_range: "b \<noteq> 0 \<Longrightarrow> rint_div 0 b = 0"
  by (simp add: rint_div_def rint_zero astype_int_def)

lemma scan_count:
  assumes "scan_axis_setup step a b r = Inr s"
  shows "scan_axis_positions s = rint_div (\<bar>b - a\<bar> / 1000) (step / 1000)"
    and "scan_axis_range_mm s = \<bar>b - a\<bar> / 1000" and "scan_axis_step_mm s = step / 1000"
  using assms
  by (auto simp: scan_axis_setup_def Let_def split: if_splits)

lemma tile_count:
  assumes "tile_axis_setup ROI px a b = Inr t"
  shows "tile_axis_positions t =
           (let n = rint_div (\<bar>b - a\<bar> / 1000) (tile_axis_step_um t / 1000) in if n = 0 then 1 else n)"
    and "tile_axis_range_mm t = \<bar>b - a\<bar> / 1000" and "tile_axis_step_mm t = tile_axis_step_um t / 1000"
  using assms
  by (auto simp: tile_axis_setup_def Let_def split: if_splits)

lemma height_count:
  assumes "height_axis_setup ROI px a b = Inr h"
  shows "height_axis_positions h =
           (let n = rint_div (\<bar>b - a\<bar> / 1000) (height_axis_step_um h / 1000) in if n = 0 then 1 else n)"
    and "height_axis_range_mm h = \<bar>b - a\<bar> / 1000" and "height_axis_step_mm h = height_axis_step_um h / 1000"
  using assms
  by (auto simp: height_axis_setup_def Let_def split: if_splits)

lemma clamped:
  assumes "0 < st" and "\<bar>b - a\<bar> / 1000 / (st / 1000) \<le> 2 ^ 63 - 1"
  shows "1 \<le> (let n = rint_div (\<bar>b - a\<bar> / 1000) (st / 1000) in if n = 0 then 1 else n)"
  using rint_div_nonneg(2) [of "st / 1000" "\<bar>b - a\<bar> / 1000"] assms
  by (auto simp: Let_def)

lemma clamped_zero_range:
  "st \<noteq> 0 \<Longrightarrow> (let n = rint_div (\<bar>a - a\<bar> / 1000) (st / 1000) in if n = 0 then 1 else n) = 1"
  by (simp add: rint_div_zero_range)

lemma ex_scan:
  "\<exists>s. scan_axis_setup 0.2 0 0 5 = Inr s \<and> 0 < scan_axis_step_mm s
       \<and> scan_axis_range_mm s / scan_axis_step_mm s \<le> 2 ^ 63 - 1"
  by (simp add: scan_axis_setup_def Let_def)

lemma ex_tile:
  "\<exists>t. tile_axis_setup [1024, 0, 256, 1600] 0.115 0 0 = Inr t \<and> 0 < tile_axis_step_mm t
       \<and> tile_axis_range_mm t / tile_axis_step_mm t \<le> 2 ^ 63 - 1"
  by (simp add: tile_axis_setup_def np_round2_def rint_def Let_def)

lemma ex_height:
  "\<exists>h. height_axis_setup [1024, 0, 256, 1600] 0.115 0 0 = Inr h \<and> 0 < height_axis_step_mm h
       \<and> height_axis_range_mm h / height_axis_step_mm h \<le> 2 ^ 63 - 1"
  by (simp add: height_axis_setup_def np_round2_def rint_def Let_def sin_30)

text \<open>
  Claim C2. A scan range of 5000 um with a step of 0.2 um gives 25000 scan positions:
  the range and the step are converted to millimetres, divided, and the quotient is
  rounded to the nearest integer. This holds for every readout time that is not zero (a
  zero readout time stops the cell before the count is computed).
\<close>

theorem scan_5000_by_02:
  "actual_readout_ms \<noteq> 0 \<Longrightarrow>
     map_sum id scan_axis_positions (scan_axis_setup 0.2 0 5000 actual_readout_ms) = Inr 25000"
  by (simp add: scan_axis_setup_def rint_div_def astype_int_def rint_def Let_def)

theorem scan_5000_by_02_witness:
  "(5::real) \<noteq> 0 \<and> map_sum id scan_axis_positions (scan_axis_setup 0.2 0 5000 5) = Inr 25000"
  using scan_5000_by_02 [of 5] by simp

text \<open>
  Claim C1, as stated, says that for every geometry each of the three position counts is
  non-negative and clamped to a minimum of one. It fails in four ways. The scan-axis
  count has no clamp: a scan range of length zero gives zero scan positions. A negative
  step gives a negative count. A step of zero raises nothing and gives the least 64-bit
  integer; on the tile axis that happens for a range of length zero too, when the pixel
  size is so small that the step rounds to zero, and the guard lets the count pass, since
  it is not zero. A quotient beyond the 64-bit range gives the least 64-bit integer as well.
\<close>

theorem position_counts_counterexample:
  "map_sum id scan_axis_positions (scan_axis_setup 0.2 0 0 5) = Inr 0
   \<and> map_sum id scan_axis_positions (scan_axis_setup (- 0.2) 0 5000 5) = Inr (- 25000)
   \<and> map_sum id scan_axis_positions (scan_axis_setup 0 0 5000 5) = Inr (- 9223372036854775808)
   \<and> map_sum id scan_axis_positions (scan_axis_setup 1 0 (10 ^ 19) 5) = Inr (- 9223372036854775808)
   \<and> map_sum id tile_axis_positions (tile_axis_setup [1024, 0, 256, 1600] 0.000001 0 0) =
       Inr (- 9223372036854775808)"
  by (simp add: scan_axis_setup_def tile_axis_setup_def rint_div_def astype_int_def INT64_MIN_def
        np_round2_def rint_def Let_def)

text \<open>
  Claim C1, amended. On an axis whose step, in millimetres as the cell divides by it, is
  positive and whose quotient of range and step is at most \<open>2 ^ 63 - 1\<close>, the position
  count is non-negative; on the tile axis and on the height axis it is then clamped to a
  minimum of one, on the scan axis it is not. A range of length zero gives exactly one
  position on the tile axis and on the height axis, and zero positions on the scan axis,
  whenever that step of the axis is not zero.
\<close>

theorem position_counts:
  "(scan_axis_setup step sa sb r = Inr s \<longrightarrow>
      (0 < scan_axis_step_mm s \<and> scan_axis_range_mm s / scan_axis_step_mm s \<le> 2 ^ 63 - 1 \<longrightarrow>
         0 \<le> scan_axis_positions s)
      \<and> (sa = sb \<and> scan_axis_step_mm s \<noteq> 0 \<longrightarrow> scan_axis_positions s = 0))
   \<and> (tile_axis_setup ROI px ta tb = Inr t \<longrightarrow>
      (0 < tile_axis_step_mm t \<and> tile_axis_range_mm t / tile_axis_step_mm t \<le> 2 ^ 63 - 1 \<longrightarrow>
         1 \<le> tile_axis_positions t)
      \<and> (ta = tb \<and> tile_axis_step_mm t \<noteq> 0 \<longrightarrow> tile_axis_positions t = 1))
   \<and> (height_axis_setup ROI px ha hb = Inr h \<longrightarrow>
      (0 < height_axis_step_mm h \<and> height_axis_range_mm h / height_axis_step_mm h \<le> 2 ^ 63 - 1 \<longrightarrow>
         1 \<le> height_axis_positions h)
      \<and> (ha = hb \<and> height_axis_step_mm h \<noteq> 0 \<longrightarrow> height_axis_positions h = 1))"
proof (intro conjI impI)
  assume e: "scan_axis_setup step sa sb r = Inr s"
  { assume "0 < scan_axis_step_mm s \<and> scan_axis_range_mm s / scan_axis_step_mm s \<le> 2 ^ 63 - 1"
    then show "0 \<le> scan_axis_positions s"
      using scan_count [OF e] rint_div_nonneg(2) [of "step / 1000" "\<bar>sb - sa\<bar> / 1000"] by simp }
  { assume "sa = sb \<and> scan_axis_step_mm s \<noteq> 0"
    then show "scan_axis_positions s = 0"
      using scan_count [OF e] by (simp add: rint_div_zero_range) }
next
  assume e: "tile_axis_setup ROI px ta tb = Inr t"
  { assume "0 < tile_axis_step_mm t \<and> tile_axis_range_mm t / tile_axis_step_mm t \<le> 2 ^ 63 - 1"
    then show "1 \<le> tile_axis_positions t"
      using tile_count [OF e] clamped [of "tile_axis_step_um t" tb ta] by simp }
  { assume "ta = tb \<and> tile_axis_step_mm t \<noteq> 0"
    then show "tile_axis_positions t = 1"
      using tile_count [OF e] clamped_zero_range [of "tile_axis_step_um t" tb] by simp }
next
  assume e: "height_axis_setup ROI px ha hb = Inr h"
  { assume "0 < height_axis_step_mm h \<and> height_axis_range_mm h / height_axis_step_mm h \<le> 2 ^ 63 - 1"
    then show "1 \<le> height_axis_positions h"
      using height_count [OF e] clamped [of "height_axis_step_um h" hb ha] by simp }
  { assume "ha = hb \<and> height_axis_step_mm h \<noteq> 0"
    then show "height_axis_positions h = 1"
      using height_count [OF e] clamped_zero_range [of "height_axis_step_um h" hb] by simp }
qed

theorem position_counts_witness:
  "\<exists>s t h.
     scan_axis_setup 0.2 0 0 5 = Inr s \<and> 0 < scan_axis_step_mm s
     \<and> scan_axis_range_mm s / scan_axis_step_mm s \<le> 2 ^ 63 - 1
     \<and> tile_axis_setup [1024, 0, 256, 1600] 0.115 0 0 = Inr t \<and> 0 < tile_axis_step_mm t
     \<and> tile_axis_range_mm t / tile_axis_step_mm t \<le> 2 ^ 63 - 1
     \<and> height_axis_setup [1024, 0, 256, 1600] 0.115 0 0 = Inr h \<and> 0 < height_axis_step_mm h
     \<and> height_axis_range_mm h / height_axis_step_mm h \<le> 2 ^ 63 - 1
     \<and> scan_axis_positions s = 0 \<and> tile_axis_positions t = 1 \<and> height_axis_positions h = 1"
proof -
  from ex_scan obtain s where s: "scan_axis_setup 0.2 0 0 5 = Inr s" "0 < scan_axis_step_mm s"
      "scan_axis_range_mm s / scan_axis_step_mm s \<le> 2 ^ 63 - 1"
    by blast
  from ex_tile obtain t
    where t: "tile_axis_setup [1024, 0, 256, 1600] 0.115 0 0 = Inr t" "0 < tile_axis_step_mm t"
      "tile_axis_range_mm t / tile_axis_step_mm t \<le> 2 ^ 63 - 1"
    by blast
  from ex_height obtain h
    where h: "height_axis_setup [1024, 0, 256, 1600] 0.115 0 0 = Inr h" "0 < height_axis_step_mm h"
      "height_axis_range_mm h / height_axis_step_mm h \<le> 2 ^ 63 - 1"
    by blast
  from position_counts [of "0.2" 0 0 5 s "[1024, 0, 256, 1600]" "0.115" 0 0 t 0 0 h] s t h
  have "scan_axis_positions s = 0 \<and> tile_axis_positions t = 1 \<and> height_axis_positions h = 1"
    by simp
  with s t h show ?thesis by simp
qed

section \<open>Properties of the acquisition-event list\<close>

lemma for_loop_appends:
  assumes "\<And>i st. i \<in> set js \<Longrightarrow> \<exists>v. body i st = Inr (v, snd st @ f i)"
  shows "\<exists>v. for_loop js body st = Inr (v, snd st @ concat (map f js))"
  using assms
proof (induction js arbitrary: st)
  case Nil
  show ?case by (cases st) simp
next
  case (Cons j js)
  from Cons.prems [of j st] obtain v where b: "body j st = Inr (v, snd st @ f j)"
    by auto
  have "\<exists>w. for_loop js body (v, snd st @ f j) = Inr (w, snd (v, snd st @ f j) @ concat (map f js))"
    by (rule Cons.IH) (simp add: Cons.prems)
  with b show ?case by auto
qed

lemma scan_body_appends:
  assumes "c < 5"
  shows "\<exists>v. scan_body chs sx tp hp y z c x st =
           Inr (v, snd st @ (if chs ! c = 1 then [mk_evt x y z sx tp hp (config_name c)] else []))"
proof -
  from assms have "c = 0 \<or> c = 1 \<or> c = 2 \<or> c = 3 \<or> c = 4" by arith
  then show ?thesis
    by (cases st) (auto simp: scan_body_def config_name_def)
qed

lemma scan_loop_appends:
  assumes "c < 5"
  shows "\<exists>v. for_loop js (scan_body chs sx tp hp y z c) st =
           Inr (v, snd st @ (if chs ! c = 1 then map (\<lambda>x. mk_evt x y z sx tp hp (config_name c)) js else []))"
proof -
  have "\<exists>v. for_loop js (scan_body chs sx tp hp y z c) st =
          Inr (v, snd st @ concat (map (\<lambda>x. if chs ! c = 1 then [mk_evt x y z sx tp hp (config_name c)] else []) js))"
    by (rule for_loop_appends) (rule scan_body_appends [OF assms])
  moreover have "concat (map (\<lambda>x. if chs ! c = 1 then [mk_evt x y z sx tp hp (config_name c)] else []) js) =
      (if chs ! c = 1 then map (\<lambda>x. mk_evt x y z sx tp hp (config_name c)) js else [])"
    by (induction js) auto
  ultimately show ?thesis by simp
qed

lemma channel_loop_appends:
  assumes "length chs \<le> 5"
  shows "\<exists>v. channel_loop chs sx tp hp n y z st =
           Inr (v, snd st @ concat (map (\<lambda>c. if chs ! c = 1
                  then map (\<lambda>x. mk_evt x y z sx tp hp (config_name c)) [0..<nat n] else [])
                [0..<length chs]))"
  unfolding channel_loop_def py_range_def
proof (simp, rule for_loop_appends)
  fix c st assume "c \<in> set [0..<length chs]"
  with assms have "c < 5" by simp
  then show "\<exists>v. for_loop [0..<nat n] (scan_body chs sx tp hp y z c) st =
           Inr (v, snd st @ (if chs ! c = 1 then map (\<lambda>x. mk_evt x y z sx tp hp (config_name c)) [0..<nat n] else []))"
    by (rule scan_loop_appends)
qed

lemma height_loop_appends:
  assumes "length chs \<le> 5"
  shows "\<exists>v. height_loop chs sx h0 h tp n y st =
           Inr (v, snd st @ concat (map (\<lambda>z. concat (map (\<lambda>c. if chs ! c = 1
                  then map (\<lambda>x. mk_evt x y z sx tp (h0 + height_axis_step_um h * real z) (config_name c))
                         [0..<nat n] else [])
                [0..<length chs])) [0..<nat (height_axis_positions h)]))"
  unfolding height_loop_def py_range_def Let_def
  by (rule for_loop_appends) (rule channel_loop_appends [OF assms])

lemma events_eq:
  assumes "length chs \<le> 5"
  shows "events chs sx t0 h0 s t h = Inr (events_in_order chs sx t0 h0 s t h)"
proof -
  let ?st = "(None, []) :: loop_state"
  have "\<exists>v. for_loop (py_range (tile_axis_positions t))
             (\<lambda>y. let tile_position_um = t0 + tile_axis_step_um t * real y
                  in height_loop chs sx h0 h tile_position_um (scan_axis_positions s) y)
             ?st = Inr (v, snd ?st @ events_in_order chs sx t0 h0 s t h)"
    unfolding py_range_def Let_def events_in_order_def
    by (rule for_loop_appends) (rule height_loop_appends [OF assms])
  then show ?thesis
    by (auto simp: events_def)
qed

lemma length_concat_const:
  assumes "\<And>i. i \<in> set js \<Longrightarrow> length (f i) = k"
  shows "length (concat (map f js)) = length js * k"
  using assms by (induction js) auto

lemma active_sum:
  "length (concat (map (\<lambda>c. if chs ! c = (1::int) then g c else []) [0..<length chs])) =
     (\<Sum>c\<leftarrow>[0..<length chs]. if chs ! c = 1 then length (g c) else 0)"
  by (simp add: length_concat comp_def if_distrib [of length] cong: if_cong)

lemma count_active:
  "(\<Sum>c\<leftarrow>[0..<length chs]. if chs ! c = (1::int) then k else 0) = length (filter (\<lambda>st. st = 1) chs) * k"
proof -
  have "map (\<lambda>c. if chs ! c = 1 then k else 0) [0..<length chs] = map (\<lambda>st. if st = 1 then k else 0) chs"
    by (rule nth_equalityI) auto
  moreover have "sum_list (map (\<lambda>st. if st = 1 then k else 0) chs) = length (filter (\<lambda>st. st = 1) chs) * k"
    by (induction chs) auto
  ultimately show ?thesis by simp
qed

lemma length_events_in_order:
  "length (events_in_order chs sx t0 h0 s t h) =
     nat (tile_axis_positions t) * (nat (height_axis_positions h) *
       (length (filter (\<lambda>st. st = 1) chs) * nat (scan_axis_positions s)))"
proof -
  let ?n = "nat (scan_axis_positions s)"
  let ?k = "length (filter (\<lambda>st. st = 1) chs) * ?n"
  have ch: "length (concat (map (\<lambda>c. if chs ! c = 1 then map (g c) [0..<?n] else []) [0..<length chs])) = ?k" for g :: "nat \<Rightarrow> nat \<Rightarrow> pyval"
    by (simp add: active_sum count_active cong: if_cong)
  have hz: "length (concat (map (\<lambda>z. concat (map (\<lambda>c. if chs ! c = 1 then map (g z c) [0..<?n] else []) [0..<length chs])) js)) = length js * ?k"
    for g :: "nat \<Rightarrow> nat \<Rightarrow> nat \<Rightarrow> pyval" and js
    by (rule length_concat_const) (rule ch)
  show ?thesis
    unfolding events_in_order_def
    by (subst length_concat_const [where k = "nat (height_axis_positions h) * ?k"]) (simp_all add: hz)
qed

lemma events_mem:
  "e \<in> set (events_in_order chs sx t0 h0 s t h) \<longleftrightarrow>
     (\<exists>y z c x. y < nat (tile_axis_positions t) \<and> z < nat (height_axis_positions h) \<and>
        c < length chs \<and> chs ! c = 1 \<and> x < nat (scan_axis_positions s) \<and>
        e = mk_evt x y z sx (t0 + tile_axis_step_um t * real y)
              (h0 + height_axis_step_um h * real z) (config_name c))"
  unfolding events_in_order_def
  apply (auto split: if_splits)
   apply blast
  apply force
  done

lemma lookup_mk_evt:
  "lookup ''x'' (mk_evt x y z sx tp hp cfg) = Some (PFloat sx)"
  "lookup ''y'' (mk_evt x y z sx tp hp cfg) = Some (PFloat tp)"
  "lookup ''z'' (mk_evt x y z sx tp hp cfg) = Some (PFloat hp)"
  "lookup ''axes'' (mk_evt x y z sx tp hp cfg) =
     Some (PDict [(''x'', PInt (int x)), (''y'', PInt (int y)), (''z'', PInt (int z))])"
  "lookup ''channel'' (mk_evt x y z sx tp hp cfg) =
     Some (PDict [(''group'', PStr ''Coherent-State''), (''config'', PStr cfg)])"
  "map fst (entries (Some (mk_evt x y z sx tp hp cfg))) = [''axes'', ''x'', ''y'', ''z'', ''channel'']"
  by (simp_all add: mk_evt_def)

lemma length_channel_states: "length (channel_states a b c d e) = 5"
  by (simp add: channel_states_def)

lemma demo_scan: "scan_axis_positions (projr (scan_axis_setup 0.2 0 0.4 5)) = 2"
  by (simp add: scan_axis_setup_def rint_div_def astype_int_def rint_def Let_def)

lemma demo_scan1: "scan_axis_positions (projr (scan_axis_setup 0.2 0 0.2 5)) = 1"
  by (simp add: scan_axis_setup_def rint_div_def astype_int_def rint_def Let_def)

lemma demo_tile:
  "tile_axis_positions (projr (tile_axis_setup [1024, 0, 256, 1600] 0.115 0 0)) = 1"
  "tile_axis_step_um (projr (tile_axis_setup [1024, 0, 256, 1600] 0.115 0 0)) = 147.2"
  by (simp_all add: tile_axis_setup_def rint_div_def astype_int_def np_round2_def rint_def Let_def)

lemma demo_height:
  "height_axis_positions (projr (height_axis_setup [1024, 0, 256, 1600] 0.115 0 0)) = 1"
  "height_axis_step_um (projr (height_axis_setup [1024, 0, 256, 1600] 0.115 0 0)) = 11.78"
  by (simp_all add: height_axis_setup_def rint_div_def astype_int_def np_round2_def rint_def Let_def sin_30)

lemma upt_2: "[0..<2] = [0, Suc 0]"
  by (simp add: upt_rec)

lemma upt_5: "[0..<5] = [0, 1, 2, 3, 4]"
  by (simp add: upt_rec)

lemma demo_scan7: "scan_axis_positions (projr (scan_axis_setup 0.2 7 7.4 5)) = 2"
  by (simp add: scan_axis_setup_def rint_div_def astype_int_def rint_def Let_def)

lemma demo_events:
  "events (channel_states 0 0 1 0 0) 7 0 0
        (projr (scan_axis_setup 0.2 7 7.4 5))
        (projr (tile_axis_setup [1024, 0, 256, 1600] 0.115 0 0))
        (projr (height_axis_setup [1024, 0, 256, 1600] 0.115 0 0)) =
   Inr [mk_evt 0 0 0 7 0 0 ''561nm'', mk_evt 1 0 0 7 0 0 ''561nm'']"
  by (simp only: events_eq length_channel_states events_in_order_def demo_scan7 demo_tile demo_height)
     (simp add: channel_states_def upt_5 upt_2 config_name_def)

lemma events_in_order_no_scan:
  "scan_axis_positions s \<le> 0 \<Longrightarrow> events_in_order chs sx t0 h0 s t h = []"
  by (auto simp: events_in_order_def)

lemma demo_scan_neg: "scan_axis_positions (projr (scan_axis_setup (- 0.2) 0 5000 5)) = - 25000"
  by (simp add: scan_axis_setup_def rint_div_def astype_int_def rint_def Let_def)

lemma demo_tile_default:
  "tile_axis_positions (projr (tile_axis_setup [1024, 0, 256, 1600] 0.115 0 5000)) = 34"
  by (simp add: tile_axis_setup_def rint_div_def astype_int_def np_round2_def rint_def Let_def)

lemma demo_height_default:
  "height_axis_positions (projr (height_axis_setup [1024, 0, 256, 1600] 0.115 0 30)) = 3"
  by (simp add: height_axis_setup_def rint_div_def astype_int_def np_round2_def rint_def Let_def sin_30)

text \<open>
  Claim C3, as stated, gives the length of the list as the product of the three counts and
  the number of active channels for every configuration. A negative count loops like a
  count of zero: with a step of -0.2 um on the scan axis the scan count is -25000, the
  list is empty, and the product of the claim is -2550000.
\<close>

theorem events_negative_count_counterexample:
  "events (channel_states 0 0 1 0 0) 0 0 0
     (projr (scan_axis_setup (- 0.2) 0 5000 5))
     (projr (tile_axis_setup [1024, 0, 256, 1600] 0.115 0 5000))
     (projr (height_axis_setup [1024, 0, 256, 1600] 0.115 0 30)) = Inr []
   \<and> tile_axis_positions (projr (tile_axis_setup [1024, 0, 256, 1600] 0.115 0 5000))
       * height_axis_positions (projr (height_axis_setup [1024, 0, 256, 1600] 0.115 0 30))
       * int (length (filter ((=) 1) (channel_states 0 0 1 0 0)))
       * scan_axis_positions (projr (scan_axis_setup (- 0.2) 0 5000 5)) = - 2550000"
proof -
  have "events_in_order (channel_states 0 0 1 0 0) 0 0 0
     (projr (scan_axis_setup (- 0.2) 0 5000 5))
     (projr (tile_axis_setup [1024, 0, 256, 1600] 0.115 0 5000))
     (projr (height_axis_setup [1024, 0, 256, 1600] 0.115 0 30)) = []"
    using demo_scan_neg by (intro events_in_order_no_scan) simp
  then show ?thesis
    by (simp only: events_eq length_channel_states demo_scan_neg demo_tile_default demo_height_default)
       (simp add: channel_states_def)
qed

text \<open>
  Claim C3, amended. The event cell returns the list of the nested comprehension
  \<open>events_in_order\<close>: tile outermost, then height, then channel, then scan step
  innermost, with one event for every scan step of every channel whose state is 1. When
  the three counts are non-negative, its length is the product of the tile count, the
  height count, the number of channels whose state is 1 and the scan count; in general
  every count enters the product as the number of rounds of its loop, which is zero for a
  negative count.
\<close>

theorem events_nested_loop_order:
  "events (channel_states a b c d e) sx t0 h0 s t h =
     Inr (events_in_order (channel_states a b c d e) sx t0 h0 s t h)
   \<and> length (events_in_order (channel_states a b c d e) sx t0 h0 s t h) =
       nat (tile_axis_positions t) * nat (height_axis_positions h) *
       length (filter (\<lambda>st. st = 1) (channel_states a b c d e)) * nat (scan_axis_positions s)
   \<and> (0 \<le> tile_axis_positions t \<and> 0 \<le> height_axis_positions h \<and> 0 \<le> scan_axis_positions s \<longrightarrow>
       int (length (events_in_order (channel_states a b c d e) sx t0 h0 s t h)) =
         tile_axis_positions t * height_axis_positions h *
         int (length (filter (\<lambda>st. st = 1) (channel_states a b c d e))) * scan_axis_positions s)"
proof (intro conjI impI)
  show "events (channel_states a b c d e) sx t0 h0 s t h =
     Inr (events_in_order (channel_states a b c d e) sx t0 h0 s t h)"
    by (rule events_eq) (simp add: length_channel_states)
  show len: "length (events_in_order (channel_states a b c d e) sx t0 h0 s t h) =
       nat (tile_axis_positions t) * nat (height_axis_positions h) *
       length (filter (\<lambda>st. st = 1) (channel_states a b c d e)) * nat (scan_axis_positions s)"
    by (simp add: length_events_in_order)
  assume "0 \<le> tile_axis_positions t \<and> 0 \<le> height_axis_positions h \<and> 0 \<le> scan_axis_positions s"
  then show "int (length (events_in_order (channel_states a b c d e) sx t0 h0 s t h)) =
         tile_axis_positions t * height_axis_positions h *
         int (length (filter (\<lambda>st. st = 1) (channel_states a b c d e))) * scan_axis_positions s"
    by (simp add: len)
qed

theorem events_nested_loop_order_witness:
  "0 \<le> tile_axis_positions (projr (tile_axis_setup [1024, 0, 256, 1600] 0.115 0 0))
   \<and> 0 \<le> height_axis_positions (projr (height_axis_setup [1024, 0, 256, 1600] 0.115 0 0))
   \<and> 0 \<le> scan_axis_positions (projr (scan_axis_setup 0.2 0 0.4 5))
   \<and> map_sum id length
       (events (channel_states 0 1 1 0 0) 0 0 0
          (projr (scan_axis_setup 0.2 0 0.4 5))
          (projr (tile_axis_setup [1024, 0, 256, 1600] 0.115 0 0))
          (projr (height_axis_setup [1024, 0, 256, 1600] 0.115 0 0))) = Inr 4"
  using events_nested_loop_order [of 0 1 1 0 0 0 0 0
          "projr (scan_axis_setup 0.2 0 0.4 5)"
          "projr (tile_axis_setup [1024, 0, 256, 1600] 0.115 0 0)"
          "projr (height_axis_setup [1024, 0, 256, 1600] 0.115 0 0)"]
  by (simp only: demo_scan demo_tile demo_height) (simp add: channel_states_def)

text \<open>
  Claim C4, as stated, says that every event names a logical index for all four axes. The
  \<^verbatim>\<open>'axes'\<close> dictionary of an event has the three keys \<^verbatim>\<open>'x'\<close>, \<^verbatim>\<open>'y'\<close> and
  \<^verbatim>\<open>'z'\<close> only: for the third laser alone, one position on every axis, the channel index 2
  is in no entry of it.
\<close>

theorem event_axes_counterexample:
  "map_sum id (map (entries \<circ> lookup ''axes''))
     (events (channel_states 0 0 1 0 0) 0 0 0
        (projr (scan_axis_setup 0.2 0 0.2 5))
        (projr (tile_axis_setup [1024, 0, 256, 1600] 0.115 0 0))
        (projr (height_axis_setup [1024, 0, 256, 1600] 0.115 0 0))) =
   Inr [[(''x'', PInt 0), (''y'', PInt 0), (''z'', PInt 0)]]"
  by (simp only: events_eq length_channel_states events_in_order_def demo_scan1 demo_tile demo_height)
     (simp add: channel_states_def upt_5 lookup_mk_evt)

text \<open>
  Claim C4, amended. Every event has the keys \<^verbatim>\<open>'axes'\<close>, \<^verbatim>\<open>'x'\<close>, \<^verbatim>\<open>'y'\<close>,
  \<^verbatim>\<open>'z'\<close> and \<^verbatim>\<open>'channel'\<close>. Its \<^verbatim>\<open>'axes'\<close> names the logical indices of three
  axes, scan step, tile and height; \<^verbatim>\<open>'x'\<close>, \<^verbatim>\<open>'y'\<close> and \<^verbatim>\<open>'z'\<close> are the stage
  targets of these indices; and \<^verbatim>\<open>'channel'\<close> is the laser configuration of an active
  channel, as its group and its configuration name. The channel has no logical index in
  the event.
\<close>

theorem event_record_contents:
  assumes "events (channel_states a b c d e) sx t0 h0 s t h = Inr evs" and "ev \<in> set evs"
  shows "map fst (entries (Some ev)) = [''axes'', ''x'', ''y'', ''z'', ''channel'']
     \<and> (\<exists>x y z k. x < nat (scan_axis_positions s) \<and> y < nat (tile_axis_positions t) \<and>
          z < nat (height_axis_positions h) \<and> k < 5 \<and> channel_states a b c d e ! k = 1 \<and>
          entries (lookup ''axes'' ev) = [(''x'', PInt (int x)), (''y'', PInt (int y)), (''z'', PInt (int z))] \<and>
          lookup ''x'' ev = Some (PFloat sx) \<and>
          lookup ''y'' ev = Some (PFloat (t0 + tile_axis_step_um t * real y)) \<and>
          lookup ''z'' ev = Some (PFloat (h0 + height_axis_step_um h * real z)) \<and>
          lookup ''channel'' ev =
            Some (PDict [(''group'', PStr ''Coherent-State''), (''config'', PStr (config_name k))]))"
proof -
  let ?chs = "channel_states a b c d e"
  from assms have "ev \<in> set (events_in_order ?chs sx t0 h0 s t h)"
    by (simp add: events_eq length_channel_states)
  then obtain y z k x where b: "y < nat (tile_axis_positions t)" "z < nat (height_axis_positions h)"
      "k < length ?chs" "?chs ! k = 1" "x < nat (scan_axis_positions s)"
    and ev: "ev = mk_evt x y z sx (t0 + tile_axis_step_um t * real y)
              (h0 + height_axis_step_um h * real z) (config_name k)"
    unfolding events_mem by blast
  from b(3) have k: "k < 5" by (simp add: length_channel_states)
  have keys: "map fst (entries (Some ev)) = [''axes'', ''x'', ''y'', ''z'', ''channel'']"
    by (simp add: ev lookup_mk_evt)
  have "x < nat (scan_axis_positions s) \<and> y < nat (tile_axis_positions t) \<and>
          z < nat (height_axis_positions h) \<and> k < 5 \<and> ?chs ! k = 1 \<and>
          entries (lookup ''axes'' ev) = [(''x'', PInt (int x)), (''y'', PInt (int y)), (''z'', PInt (int z))] \<and>
          lookup ''x'' ev = Some (PFloat sx) \<and>
          lookup ''y'' ev = Some (PFloat (t0 + tile_axis_step_um t * real y)) \<and>
          lookup ''z'' ev = Some (PFloat (h0 + height_axis_step_um h * real z)) \<and>
          lookup ''channel'' ev =
            Some (PDict [(''group'', PStr ''Coherent-State''), (''config'', PStr (config_name k))])"
    using b k by (simp add: ev lookup_mk_evt)
  then have "\<exists>x y z k. x < nat (scan_axis_positions s) \<and> y < nat (tile_axis_positions t) \<and>
          z < nat (height_axis_positions h) \<and> k < 5 \<and> ?chs ! k = 1 \<and>
          entries (lookup ''axes'' ev) = [(''x'', PInt (int x)), (''y'', PInt (int y)), (''z'', PInt (int z))] \<and>
          lookup ''x'' ev = Some (PFloat sx) \<and>
          lookup ''y'' ev = Some (PFloat (t0 + tile_axis_step_um t * real y)) \<and>
          lookup ''z'' ev = Some (PFloat (h0 + height_axis_step_um h * real z)) \<and>
          lookup ''channel'' ev =
            Some (PDict [(''group'', PStr ''Coherent-State''), (''config'', PStr (config_name k))])"
    by blast
  with keys show ?thesis by simp
qed

theorem event_record_contents_witness:
  "events (channel_states 0 0 1 0 0) 7 0 0
        (projr (scan_axis_setup 0.2 7 7.4 5))
        (projr (tile_axis_setup [1024, 0, 256, 1600] 0.115 0 0))
        (projr (height_axis_setup [1024, 0, 256, 1600] 0.115 0 0)) =
     Inr [mk_evt 0 0 0 7 0 0 ''561nm'', mk_evt 1 0 0 7 0 0 ''561nm'']
   \<and> mk_evt 1 0 0 7 0 0 ''561nm'' \<in> set [mk_evt 0 0 0 7 0 0 ''561nm'', mk_evt 1 0 0 7 0 0 ''561nm'']
   \<and> map fst (entries (Some (mk_evt 1 0 0 7 0 0 ''561nm''))) =
       [''axes'', ''x'', ''y'', ''z'', ''channel'']"
  using event_record_contents [OF demo_events, of "mk_evt 1 0 0 7 0 0 ''561nm''"] demo_events
  by simp

text \<open>
  Claim C10. Every event of the list carries the same physical x position, the start of
  the scan axis, whatever its logical x index is.
\<close>

theorem event_physical_x_constant:
  assumes "events (channel_states a b c d e) sx t0 h0 s t h = Inr evs"
  shows "\<forall>ev \<in> set evs. lookup ''x'' ev = Some (PFloat sx)"
proof
  fix ev assume "ev \<in> set evs"
  with assms have "ev \<in> set (events_in_order (channel_states a b c d e) sx t0 h0 s t h)"
    by (simp add: events_eq length_channel_states)
  then show "lookup ''x'' ev = Some (PFloat sx)"
    unfolding events_mem by (auto simp: lookup_mk_evt)
qed

theorem event_physical_x_constant_witness:
  "events (channel_states 0 0 1 0 0) 7 0 0
        (projr (scan_axis_setup 0.2 7 7.4 5))
        (projr (tile_axis_setup [1024, 0, 256, 1600] 0.115 0 0))
        (projr (height_axis_setup [1024, 0, 256, 1600] 0.115 0 0)) =
     Inr [mk_evt 0 0 0 7 0 0 ''561nm'', mk_evt 1 0 0 7 0 0 ''561nm'']
   \<and> lookup ''x'' (mk_evt 0 0 0 7 0 0 ''561nm'') = Some (PFloat 7)
   \<and> lookup ''x'' (mk_evt 1 0 0 7 0 0 ''561nm'') = Some (PFloat 7)"
  using event_physical_x_constant [OF demo_events] demo_events
  by simp

section \<open>Properties of the wait for the controller\<close>

lemma wait_returns:
  assumes "resp (polls t + k) = ''N''" and "\<forall>j<k. resp (polls t + j) \<noteq> ''N''" and "ready t \<noteq> ''N''"
  shows "wait_not_busy resp t =
           Some (t\<lparr>serial_command := ''STATUS'', ready := ''N'',
                   polls := polls t + k + 1, slept_ms := slept_ms t + 500 * (k + 1)\<rparr>)"
  using assms
proof (induction k arbitrary: t)
  case 0
  then have "ready (poll_once resp t) = ''N''"
    by (simp add: poll_once_def)
  then have "wait_not_busy resp (poll_once resp t) = Some (poll_once resp t)"
    by (subst wait_not_busy.simps) simp
  with 0 show ?case
    by (subst wait_not_busy.simps) (simp add: poll_once_def)
next
  case (Suc k)
  let ?u = "poll_once resp t"
  from Suc.prems(2) have "resp (polls t) \<noteq> ''N''"
    by (metis add.right_neutral zero_less_Suc)
  then have r: "ready ?u \<noteq> ''N''"
    by (simp add: poll_once_def)
  have p: "polls ?u = polls t + 1"
    by (simp add: poll_once_def)
  have a: "resp (polls ?u + k) = ''N''"
    using Suc.prems(1) by (simp add: p)
  have b: "\<forall>j<k. resp (polls ?u + j) \<noteq> ''N''"
  proof (intro allI impI)
    fix j assume "j < k"
    then have "Suc j < Suc k" by simp
    with Suc.prems(2) have "resp (polls t + Suc j) \<noteq> ''N''" by blast
    then show "resp (polls ?u + j) \<noteq> ''N''" by (simp add: p)
  qed
  have "wait_not_busy resp t = wait_not_busy resp ?u"
    using Suc.prems(3) by (subst wait_not_busy.simps) simp
  also have "\<dots> = Some (?u\<lparr>serial_command := ''STATUS'', ready := ''N'',
                   polls := polls ?u + k + 1, slept_ms := slept_ms ?u + 500 * (k + 1)\<rparr>)"
    by (rule Suc.IH [OF a b r])
  finally show ?case
    by (simp add: poll_once_def)
qed

lemma wait_some_reports:
  assumes "wait_not_busy resp t = Some t'"
  shows "ready t = ''N'' \<or> (\<exists>k. resp (polls t + k) = ''N'')"
proof (rule wait_not_busy.raw_induct
         [where P = "\<lambda>resp t t'. ready t = ''N'' \<or> (\<exists>k. resp (polls t + k) = ''N'')", OF _ assms])
  fix wnb :: "(nat \<Rightarrow> string) \<Rightarrow> tiger \<Rightarrow> tiger option" and resp t t'
  assume IH: "\<And>resp t t'. wnb resp t = Some t' \<Longrightarrow>
                 ready t = ''N'' \<or> (\<exists>k. resp (polls t + k) = ''N'')"
    and step: "(if ready t \<noteq> ''N'' then wnb resp (poll_once resp t) else Some t) = Some t'"
  show "ready t = ''N'' \<or> (\<exists>k. resp (polls t + k) = ''N'')"
  proof (cases "ready t = ''N''")
    case True
    then show ?thesis by simp
  next
    case False
    with step have "wnb resp (poll_once resp t) = Some t'" by simp
    from IH [OF this]
    have "resp (polls t) = ''N'' \<or> (\<exists>k. resp (polls t + 1 + k) = ''N'')"
      by (simp add: poll_once_def)
    then show ?thesis
      by (metis add.right_neutral add.assoc)
  qed
qed

lemma wait_diverges:
  assumes "\<forall>k. resp (polls t + k) \<noteq> ''N''" and "ready t \<noteq> ''N''"
  shows "wait_not_busy resp t = None"
proof (cases "wait_not_busy resp t")
  case None
  then show ?thesis .
next
  case (Some t')
  from wait_some_reports [OF this] assms show ?thesis by blast
qed

text \<open>
  Claim C5. The hook polls the status of the controller every 500 ms, with no backoff and
  no bound on the number of polls. It returns exactly when the controller answers
  \<^verbatim>\<open>'N'\<close>: if the first such answer is the answer to poll number \<open>k\<close> (counted from the
  polls already made), the hook returns after \<open>k + 1\<close> polls and \<open>500 * (k + 1)\<close> ms of
  sleep; if the controller never answers \<^verbatim>\<open>'N'\<close>, the hook never returns.
\<close>

theorem post_hardware_hook_polls:
  "(resp (polls t + k) = ''N'' \<and> (\<forall>j<k. resp (polls t + j) \<noteq> ''N'') \<longrightarrow>
      post_hardware_hook resp event t =
        Some (event, t\<lparr>only_send_on_change := ''Yes'', serial_command := ''STATUS'', ready := ''N'',
                       polls := polls t + k + 1, slept_ms := slept_ms t + 500 * (k + 1)\<rparr>))
   \<and> ((\<forall>k. resp (polls t + k) \<noteq> ''N'') \<longrightarrow> post_hardware_hook resp event t = None)"
proof (intro conjI impI)
  let ?t = "t\<lparr>only_send_on_change := ''No'', ready := ''B''\<rparr>"
  assume "resp (polls t + k) = ''N'' \<and> (\<forall>j<k. resp (polls t + j) \<noteq> ''N'')"
  then have "wait_not_busy resp ?t =
           Some (?t\<lparr>serial_command := ''STATUS'', ready := ''N'',
                   polls := polls ?t + k + 1, slept_ms := slept_ms ?t + 500 * (k + 1)\<rparr>)"
    by (intro wait_returns) simp_all
  then show "post_hardware_hook resp event t =
        Some (event, t\<lparr>only_send_on_change := ''Yes'', serial_command := ''STATUS'', ready := ''N'',
                       polls := polls t + k + 1, slept_ms := slept_ms t + 500 * (k + 1)\<rparr>)"
    by (simp add: post_hardware_hook_def)
next
  let ?t = "t\<lparr>only_send_on_change := ''No'', ready := ''B''\<rparr>"
  assume "\<forall>k. resp (polls t + k) \<noteq> ''N''"
  then have "wait_not_busy resp ?t = None"
    by (intro wait_diverges) simp_all
  then show "post_hardware_hook resp event t = None"
    by (simp add: post_hardware_hook_def)
qed

theorem post_hardware_hook_polls_witness:
  "post_hardware_hook (\<lambda>n. if n < 2 then ''B'' else ''N'') ()
      \<lparr>only_send_on_change = ''Yes'', serial_command = '''', ready = '''', polls = 0, slept_ms = 0\<rparr> =
     Some ((), \<lparr>only_send_on_change = ''Yes'', serial_command = ''STATUS'', ready = ''N'',
                polls = 3, slept_ms = 1500\<rparr>)
   \<and> post_hardware_hook (\<lambda>n. ''B'') ()
      \<lparr>only_send_on_change = ''Yes'', serial_command = '''', ready = '''', polls = 0, slept_ms = 0\<rparr> = None"
proof -
  let ?t = "\<lparr>only_send_on_change = ''Yes'', serial_command = '''', ready = '''', polls = 0, slept_ms = 0\<rparr>"
  have lt: "j < 2 \<longleftrightarrow> j = 0 \<or> j = Suc 0" for j :: nat by arith
  from post_hardware_hook_polls [of "\<lambda>n. if n < 2 then ''B'' else ''N''" ?t 2 "()"]
  have "post_hardware_hook (\<lambda>n. if n < 2 then ''B'' else ''N'') () ?t =
     Some ((), \<lparr>only_send_on_change = ''Yes'', serial_command = ''STATUS'', ready = ''N'',
                polls = 3, slept_ms = 1500\<rparr>)"
    by simp
  moreover from post_hardware_hook_polls [of "\<lambda>n. ''B''" ?t 0 "()"]
  have "post_hardware_hook (\<lambda>n. ''B'') () ?t = None"
    by simp
  ultimately show ?thesis by simp
qed

section \<open>Properties of the PSF viewer\<close>

lemma concat_reshape_take: "concat (reshape pix r c) = take (r * c) pix"
proof (induction r)
  case 0
  show ?case by (simp add: reshape_def)
next
  case (Suc r)
  have "concat (reshape pix (Suc r) c) = concat (reshape pix r c) @ take c (drop (r * c) pix)"
    by (simp add: reshape_def)
  also have "\<dots> = take (r * c) pix @ take c (drop (r * c) pix)"
    by (simp add: Suc.IH)
  also have "\<dots> = take (r * c + c) pix"
    by (simp add: take_add)
  finally show ?case by (simp add: add.commute)
qed

lemma concat_reshape: "length pix = r * c \<Longrightarrow> concat (reshape pix r c) = pix"
  by (simp add: concat_reshape_take)

lemma py_index_less: "py_index n i = Some k \<Longrightarrow> k < n"
  by (auto simp: py_index_def split: if_splits)

lemma py_index_nonneg: "0 \<le> i \<Longrightarrow> i < int n \<Longrightarrow> py_index n i = Some (nat i)"
  by (simp add: py_index_def)

lemma reshape_one_row: "length pix = c \<Longrightarrow> reshape pix (Suc 0) c = [pix]"
  by (simp add: reshape_def)

lemma squeeze_assign_same_shape:
  assumes "length pix = r * c" and "\<not> (c = 1 \<and> r \<noteq> 1)"
  shows "squeeze_assign (r, c) r c pix = Inr (reshape pix r c)"
proof (cases "r = 1")
  case False
  with assms(2) show ?thesis by (simp add: squeeze_assign_def)
next
  case True
  show ?thesis
  proof (cases "c = 1")
    case False
    with True assms(1) show ?thesis
      by (simp add: squeeze_assign_def reshape_one_row)
  next
    case c: True
    with True assms(1) obtain p where "pix = [p]"
      by (cases pix) auto
    with True c show ?thesis
      by (simp add: squeeze_assign_def reshape_def)
  qed
qed

lemma squeeze_assign_pixels:
  assumes "squeeze_assign shp r c pix = Inr slice" and "length pix = r * c"
  shows "set (concat slice) \<subseteq> set pix"
proof (cases shp)
  case (Pair R C)
  show ?thesis
  proof (cases "r \<noteq> 1 \<and> c \<noteq> 1")
    case True
    with assms Pair have "slice = reshape pix r c"
      by (auto simp: squeeze_assign_def split: if_splits)
    with assms(2) show ?thesis by (simp add: concat_reshape)
  next
    case False
    show ?thesis
    proof (cases "r = 1 \<and> c = 1")
      case True
      with assms(2) obtain p where p: "pix = [p]"
        by (cases pix) auto
      from True assms(1) Pair have "slice = replicate R (replicate C (pix ! 0))"
        by (simp add: squeeze_assign_def)
      with p show ?thesis by auto
    next
      case nz: False
      with False assms(1) Pair have "slice = replicate R pix"
        by (auto simp: squeeze_assign_def split: if_splits)
      then show ?thesis by auto
    qed
  qed
qed

lemma display_napari_Inr:
  assumes "display_napari clip (Some (color, z_pos, pix)) s = Inr s'"
  shows "\<exists>k slice. py_index (length (data s)) z_pos = Some k \<and> length pix = clip ! 0 * clip ! 1
           \<and> squeeze_assign (data_shape s) (clip ! 0) (clip ! 1) pix = Inr slice
           \<and> data s' = (data s)[k := slice]"
  using assms
  by (auto simp: display_napari_def Let_def split: if_splits option.splits sum.splits)

lemma display_napari_broadcast_examples:
  "display_napari [0, 1] (Some (0, 0, []))
      \<lparr>acq_running = True, z_range = [0, 50, 2, 0], channels = [1, 0], img_queue = [],
       unfinished_tasks = 1, data = [[], []], data_shape = (0, 1), n_layers = 1,
       refreshed = [], workers = []\<rparr> =
     Inl (ValueError, \<lparr>acq_running = True, z_range = [0, 50, 2, 0], channels = [1, 0], img_queue = [],
       unfinished_tasks = 1, data = [[], []], data_shape = (0, 1), n_layers = 1,
       refreshed = [], workers = []\<rparr>)"
  "map_sum id data (display_napari [1, 2] (Some (0, 0, [5, 6]))
      \<lparr>acq_running = True, z_range = [0, 50, 2, 0], channels = [1, 0], img_queue = [],
       unfinished_tasks = 1, data = [[[0, 0], [0, 0]]], data_shape = (2, 2), n_layers = 1,
       refreshed = [], workers = []\<rparr>) = Inr [[[5, 6], [5, 6]]]"
  by (simp_all add: display_napari_def squeeze_assign_def py_index_def Let_def numeral_2_eq_2)

lemma consumer_inv_step: "consumer_inv s \<Longrightarrow> consumer_inv (yield_img_step s)"
  by (cases "pc s"; cases "img_queue s")
     (auto simp: consumer_inv_def yield_img_step_def)

lemma exec_Start_running: "acq_running s \<Longrightarrow> exec Start s = s"
  by (cases s) (simp add: start_acq_def viewer.truncate_def viewer.extend_def)

lemma consumer_inv_exec:
  assumes "consumer_inv s" and "a = Start \<longrightarrow> acq_running s"
  shows "consumer_inv (exec a s)"
proof (cases a)
  case Consumer
  with assms(1) show ?thesis by (simp add: consumer_inv_step)
next
  case (Put x)
  with assms(1) show ?thesis by (auto simp: consumer_inv_def)
next
  case Stop
  with assms(1) show ?thesis by (auto simp: consumer_inv_def)
next
  case Start
  with assms(2) have "exec a s = s" by (simp only: exec_Start_running)
  with assms(1) show ?thesis by simp
qed

lemma consumer_inv_run:
  "consumer_inv s \<Longrightarrow> no_restart sched s \<Longrightarrow> consumer_inv (run sched s)"
  by (induction sched arbitrary: s) (simp_all add: consumer_inv_exec)

lemma consumer_inv_start: "pc s = Outer \<Longrightarrow> consumer_inv s"
  by (simp add: consumer_inv_def)

lemma fifo_step:
  "consumer_inv s \<Longrightarrow>
     yielded (yield_img_step s) @ img_queue (yield_img_step s) = yielded s @ img_queue s"
  by (cases "pc s"; cases "img_queue s")
     (auto simp: consumer_inv_def yield_img_step_def)

lemma fifo_exec:
  assumes "consumer_inv s" and "a = Start \<longrightarrow> acq_running s"
  shows "yielded (exec a s) @ img_queue (exec a s) = yielded s @ img_queue s @ puts [a]"
proof (cases a)
  case Start
  with assms(2) have "exec a s = s" by (simp only: exec_Start_running)
  with Start show ?thesis by simp
qed (simp_all add: fifo_step assms(1))

lemma puts_Cons: "puts (a # sched) = puts [a] @ puts sched"
  by (cases a) simp_all

lemma fifo_run:
  "consumer_inv s \<Longrightarrow> no_restart sched s \<Longrightarrow>
     yielded (run sched s) @ img_queue (run sched s) = yielded s @ img_queue s @ puts sched"
proof (induction sched arbitrary: s)
  case Nil
  show ?case by simp
next
  case (Cons a sched)
  from Cons.prems(2) have st: "a = Start \<longrightarrow> acq_running s" and nr: "no_restart sched (exec a s)"
    by simp_all
  have "yielded (run sched (exec a s)) @ img_queue (run sched (exec a s)) =
          yielded (exec a s) @ img_queue (exec a s) @ puts sched"
    by (rule Cons.IH) (rule consumer_inv_exec [OF Cons.prems(1) st], rule nr)
  also have "\<dots> = yielded s @ img_queue s @ puts [a] @ puts sched"
    using fifo_exec [OF Cons.prems(1) st] by simp
  finally show ?case
    by (simp add: puts_Cons [of a sched])
qed

lemma removal_while_running:
  assumes "consumer_inv s" and "acq_running s" and "img_queue (yield_img_step s) \<noteq> img_queue s"
  shows "1 < length (img_queue s) \<and> img_queue (yield_img_step s) = tl (img_queue s)
         \<and> img_queue (yield_img_step s) \<noteq> []
         \<and> yielded (yield_img_step s) = yielded s @ [hd (img_queue s)]"
  using assms
  by (cases "pc s"; cases "img_queue s")
     (auto simp: consumer_inv_def yield_img_step_def split: if_splits)

lemma one_more:
  assumes "\<exists>n. Q (run (replicate n Consumer) (yield_img_step s))"
  shows "\<exists>n. Q (run (replicate n Consumer) s)"
proof -
  from assms obtain n where "Q (run (replicate n Consumer) (yield_img_step s))" ..
  then have "Q (run (replicate (Suc n) Consumer) s)" by simp
  then show ?thesis ..
qed

lemma drain_from_Drain:
  "pc s = Drain \<Longrightarrow>
     \<exists>n. pc (run (replicate n Consumer) s) = Finished
        \<and> img_queue (run (replicate n Consumer) s) = []
        \<and> yielded (run (replicate n Consumer) s) = yielded s @ img_queue s"
proof (induction "img_queue s" arbitrary: s)
  case Nil
  then have "pc (run (replicate 1 Consumer) s) = Finished
        \<and> img_queue (run (replicate 1 Consumer) s) = []
        \<and> yielded (run (replicate 1 Consumer) s) = yielded s @ img_queue s"
    by (simp add: yield_img_step_def)
  then show ?case ..
next
  case (Cons x q)
  let ?s1 = "yield_img_step s"
  let ?s2 = "yield_img_step ?s1"
  from Cons.prems Cons.hyps(2) [symmetric]
  have s2: "pc ?s2 = Drain" "img_queue ?s2 = q" "yielded ?s2 = yielded s @ [x]"
    by (simp_all add: yield_img_step_def)
  from Cons.hyps(1) [of ?s2] s2
  have "\<exists>n. pc (run (replicate n Consumer) ?s2) = Finished
        \<and> img_queue (run (replicate n Consumer) ?s2) = []
        \<and> yielded (run (replicate n Consumer) ?s2) = yielded s @ img_queue s"
    using Cons.hyps(2) [symmetric] by simp
  then show ?case
    by (intro one_more [where s = s] one_more [where s = ?s1])
qed

lemma drain_from_Outer:
  assumes "pc s = Outer" and "\<not> acq_running s"
  shows "\<exists>n. pc (run (replicate n Consumer) s) = Finished
        \<and> img_queue (run (replicate n Consumer) s) = []
        \<and> yielded (run (replicate n Consumer) s) = yielded s @ img_queue s"
proof (rule one_more)
  have "pc (yield_img_step s) = Drain" "img_queue (yield_img_step s) = img_queue s"
    "yielded (yield_img_step s) = yielded s"
    using assms by (simp_all add: yield_img_step_def)
  with drain_from_Drain [of "yield_img_step s"]
  show "\<exists>n. pc (run (replicate n Consumer) (yield_img_step s)) = Finished
        \<and> img_queue (run (replicate n Consumer) (yield_img_step s)) = []
        \<and> yielded (run (replicate n Consumer) (yield_img_step s)) = yielded s @ img_queue s"
    by simp
qed

lemma drain_from_Inner:
  "pc s = Inner \<Longrightarrow> \<not> acq_running s \<Longrightarrow>
     \<exists>n. pc (run (replicate n Consumer) s) = Finished
        \<and> img_queue (run (replicate n Consumer) s) = []
        \<and> yielded (run (replicate n Consumer) s) = yielded s @ img_queue s"
proof (induction "img_queue s" arbitrary: s)
  case Nil
  let ?s1 = "yield_img_step s"
  from Nil have s1: "pc ?s1 = Outer" "\<not> acq_running ?s1" "img_queue ?s1 = img_queue s"
    "yielded ?s1 = yielded s"
    by (simp_all add: yield_img_step_def)
  from drain_from_Outer [OF s1(1,2)] s1(3,4) show ?case
    by (intro one_more [where s = s]) simp
next
  case (Cons x q)
  let ?s1 = "yield_img_step s"
  show ?case
  proof (cases q)
    case Nil
    with Cons.prems Cons.hyps(2) [symmetric]
    have s1: "pc ?s1 = Outer" "\<not> acq_running ?s1" "img_queue ?s1 = img_queue s"
      "yielded ?s1 = yielded s"
      by (simp_all add: yield_img_step_def)
    from drain_from_Outer [OF s1(1,2)] s1(3,4) show ?thesis
      by (intro one_more [where s = s]) simp
  next
    case (Cons x' q')
    let ?s2 = "yield_img_step ?s1"
    from Cons \<open>pc s = Inner\<close> \<open>\<not> acq_running s\<close> \<open>x # q = img_queue s\<close> [symmetric]
    have s2: "pc ?s2 = Inner" "\<not> acq_running ?s2" "img_queue ?s2 = q" "yielded ?s2 = yielded s @ [x]"
      by (simp_all add: yield_img_step_def)
    from \<open>\<And>s. q = img_queue s \<Longrightarrow> pc s = Inner \<Longrightarrow> \<not> acq_running s \<Longrightarrow>
            \<exists>n. pc (run (replicate n Consumer) s) = Finished
              \<and> img_queue (run (replicate n Consumer) s) = []
              \<and> yielded (run (replicate n Consumer) s) = yielded s @ img_queue s\<close> [of ?s2] s2
    have "\<exists>n. pc (run (replicate n Consumer) ?s2) = Finished
        \<and> img_queue (run (replicate n Consumer) ?s2) = []
        \<and> yielded (run (replicate n Consumer) ?s2) = yielded s @ img_queue s"
      using \<open>x # q = img_queue s\<close> [symmetric] by simp
    then show ?thesis
      by (intro one_more [where s = s] one_more [where s = ?s1])
  qed
qed

lemma drains:
  assumes "consumer_inv s" and "\<not> acq_running s" and "pc s \<noteq> Finished"
  shows "\<exists>n. pc (run (replicate n Consumer) s) = Finished
        \<and> img_queue (run (replicate n Consumer) s) = []
        \<and> yielded (run (replicate n Consumer) s) = yielded s @ img_queue s"
proof (cases "pc s")
  case Outer
  then show ?thesis using assms(2) by (rule drain_from_Outer)
next
  case Sleeping
  let ?s1 = "yield_img_step s"
  from Sleeping assms(2)
  have s1: "pc ?s1 = Inner" "\<not> acq_running ?s1" "img_queue ?s1 = img_queue s" "yielded ?s1 = yielded s"
    by (simp_all add: yield_img_step_def)
  from drain_from_Inner [OF s1(1,2)] s1(3,4) show ?thesis
    by (intro one_more [where s = s]) simp
next
  case Inner
  then show ?thesis using assms(2) by (rule drain_from_Inner)
next
  case InnerGet
  let ?s1 = "yield_img_step s"
  from InnerGet assms(1) obtain x q where q: "img_queue s = x # q"
    by (cases "img_queue s") (auto simp: consumer_inv_def)
  with InnerGet assms(2)
  have s1: "pc ?s1 = Inner" "\<not> acq_running ?s1" "img_queue ?s1 = q" "yielded ?s1 = yielded s @ [x]"
    by (simp_all add: yield_img_step_def)
  from drain_from_Inner [OF s1(1,2)] s1(3,4) q show ?thesis
    by (intro one_more [where s = s]) simp
next
  case Drain
  then show ?thesis by (rule drain_from_Drain)
next
  case DrainGet
  let ?s1 = "yield_img_step s"
  from DrainGet assms(1) obtain x q where q: "img_queue s = x # q"
    by (cases "img_queue s") (auto simp: consumer_inv_def)
  with DrainGet
  have s1: "pc ?s1 = Drain" "img_queue ?s1 = q" "yielded ?s1 = yielded s @ [x]"
    by (simp_all add: yield_img_step_def)
  from drain_from_Drain [OF s1(1)] s1(2,3) q show ?thesis
    by (intro one_more [where s = s]) simp
next
  case Finished
  with assms(3) show ?thesis by simp
next
  case (Raised e)
  with assms(1) show ?thesis by (simp add: consumer_inv_def)
qed

text \<open>
  Claim C6, as stated, holds of every run of the program. It fails when the acquisition
  is restarted while the worker is in its draining loop, which never reads the flag
  again: after a put, Stop, a step of the worker, Start and another step, the flag is set
  and the worker is about to remove the only element of the queue.
\<close>

theorem yield_img_restart_counterexample:
  "acq_running (run [Put (0, 0, [1]), Stop, Consumer, Start, Consumer]
        \<lparr>acq_running = True, z_range = [0, 50, 2, 0], channels = [1, 0], img_queue = [],
         unfinished_tasks = 0, data = [], data_shape = (1, 1), n_layers = 1, refreshed = [],
         workers = [YieldImg, AppendImg], pc = Outer, yielded = []\<rparr>)
   \<and> img_queue (run [Put (0, 0, [1]), Stop, Consumer, Start, Consumer]
        \<lparr>acq_running = True, z_range = [0, 50, 2, 0], channels = [1, 0], img_queue = [],
         unfinished_tasks = 0, data = [], data_shape = (1, 1), n_layers = 1, refreshed = [],
         workers = [YieldImg, AppendImg], pc = Outer, yielded = []\<rparr>) = [(0, 0, [1])]
   \<and> img_queue (yield_img_step (run [Put (0, 0, [1]), Stop, Consumer, Start, Consumer]
        \<lparr>acq_running = True, z_range = [0, 50, 2, 0], channels = [1, 0], img_queue = [],
         unfinished_tasks = 0, data = [], data_shape = (1, 1), n_layers = 1, refreshed = [],
         workers = [YieldImg, AppendImg], pc = Outer, yielded = []\<rparr>)) = []"
  by (simp add: yield_img_step_def start_acq_def viewer.truncate_def viewer.extend_def)

text \<open>
  Claim C6, amended. Take any schedule of the consumer, the producer and the two buttons
  that begins when the worker of \<^verbatim>\<open>yield_img\<close> starts and has no restart: Start is
  pressed only while the flag is set, so that the worker stays the only consumer of the
  queue. The worker never raises, and the elements it has
  yielded followed by the elements in the queue are always the elements that were in the
  queue at the start followed by the elements put since. While the flag is set, a step of
  the worker that removes an element finds more than one element in the queue, leaves at
  least one there and yields the element it removed. Once the flag is cleared, the worker,
  running on, reaches its end with the queue empty, having yielded every element that was
  in the queue.
\<close>

theorem yield_img_behaviour:
  assumes "pc s0 = Outer" and "no_restart sched s0"
  shows "(\<forall>e. pc (run sched s0) \<noteq> Raised e)
     \<and> yielded (run sched s0) @ img_queue (run sched s0) = yielded s0 @ img_queue s0 @ puts sched
     \<and> (acq_running (run sched s0)
          \<and> img_queue (yield_img_step (run sched s0)) \<noteq> img_queue (run sched s0) \<longrightarrow>
        1 < length (img_queue (run sched s0))
        \<and> img_queue (yield_img_step (run sched s0)) = tl (img_queue (run sched s0))
        \<and> img_queue (yield_img_step (run sched s0)) \<noteq> []
        \<and> yielded (yield_img_step (run sched s0)) =
            yielded (run sched s0) @ [hd (img_queue (run sched s0))])
     \<and> (\<not> acq_running (run sched s0) \<and> pc (run sched s0) \<noteq> Finished \<longrightarrow>
        (\<exists>n. pc (run (replicate n Consumer) (run sched s0)) = Finished
           \<and> img_queue (run (replicate n Consumer) (run sched s0)) = []
           \<and> yielded (run (replicate n Consumer) (run sched s0)) =
               yielded (run sched s0) @ img_queue (run sched s0)))"
proof -
  from assms(1) have inv0: "consumer_inv s0" by (rule consumer_inv_start)
  then have inv: "consumer_inv (run sched s0)" using assms(2) by (rule consumer_inv_run)
  have "\<forall>e. pc (run sched s0) \<noteq> Raised e"
    using inv by (simp add: consumer_inv_def)
  moreover have "yielded (run sched s0) @ img_queue (run sched s0) = yielded s0 @ img_queue s0 @ puts sched"
    using inv0 assms(2) by (rule fifo_run)
  moreover note removal_while_running [OF inv] drains [OF inv]
  ultimately show ?thesis by blast
qed

theorem yield_img_behaviour_witness:
  "pc \<lparr>acq_running = True, z_range = [0, 50, 2, 0], channels = [1, 0], img_queue = [],
        unfinished_tasks = 0, data = [], data_shape = (1, 1), n_layers = 1, refreshed = [],
        workers = [YieldImg, AppendImg], pc = Outer, yielded = []\<rparr> = Outer
   \<and> no_restart [Put (0, 0, [1]), Start, Put (0, 1, [2]), Consumer, Consumer, Consumer, Consumer, Stop]
        \<lparr>acq_running = True, z_range = [0, 50, 2, 0], channels = [1, 0], img_queue = [],
         unfinished_tasks = 0, data = [], data_shape = (1, 1), n_layers = 1, refreshed = [],
         workers = [YieldImg, AppendImg], pc = Outer, yielded = []\<rparr>
   \<and> acq_running (run [Put (0, 0, [1]), Start, Put (0, 1, [2]), Consumer, Consumer, Consumer]
        \<lparr>acq_running = True, z_range = [0, 50, 2, 0], channels = [1, 0], img_queue = [],
         unfinished_tasks = 0, data = [], data_shape = (1, 1), n_layers = 1, refreshed = [],
         workers = [YieldImg, AppendImg], pc = Outer, yielded = []\<rparr>)
   \<and> img_queue (yield_img_step (run [Put (0, 0, [1]), Start, Put (0, 1, [2]), Consumer, Consumer, Consumer]
        \<lparr>acq_running = True, z_range = [0, 50, 2, 0], channels = [1, 0], img_queue = [],
         unfinished_tasks = 0, data = [], data_shape = (1, 1), n_layers = 1, refreshed = [],
         workers = [YieldImg, AppendImg], pc = Outer, yielded = []\<rparr>)) = [(0, 1, [2])]
   \<and> yielded (yield_img_step (run [Put (0, 0, [1]), Start, Put (0, 1, [2]), Consumer, Consumer, Consumer]
        \<lparr>acq_running = True, z_range = [0, 50, 2, 0], channels = [1, 0], img_queue = [],
         unfinished_tasks = 0, data = [], data_shape = (1, 1), n_layers = 1, refreshed = [],
         workers = [YieldImg, AppendImg], pc = Outer, yielded = []\<rparr>)) = [(0, 0, [1])]
   \<and> \<not> acq_running (run [Put (0, 0, [1]), Start, Put (0, 1, [2]), Consumer, Consumer, Consumer, Consumer, Stop]
        \<lparr>acq_running = True, z_range = [0, 50, 2, 0], channels = [1, 0], img_queue = [],
         unfinished_tasks = 0, data = [], data_shape = (1, 1), n_layers = 1, refreshed = [],
         workers = [YieldImg, AppendImg], pc = Outer, yielded = []\<rparr>)
   \<and> (\<exists>n. pc (run (replicate n Consumer)
             (run [Put (0, 0, [1]), Start, Put (0, 1, [2]), Consumer, Consumer, Consumer, Consumer, Stop]
               \<lparr>acq_running = True, z_range = [0, 50, 2, 0], channels = [1, 0], img_queue = [],
                unfinished_tasks = 0, data = [], data_shape = (1, 1), n_layers = 1, refreshed = [],
                workers = [YieldImg, AppendImg], pc = Outer, yielded = []\<rparr>)) = Finished
         \<and> yielded (run (replicate n Consumer)
             (run [Put (0, 0, [1]), Start, Put (0, 1, [2]), Consumer, Consumer, Consumer, Consumer, Stop]
               \<lparr>acq_running = True, z_range = [0, 50, 2, 0], channels = [1, 0], img_queue = [],
                unfinished_tasks = 0, data = [], data_shape = (1, 1), n_layers = 1, refreshed = [],
                workers = [YieldImg, AppendImg], pc = Outer, yielded = []\<rparr>)) = [(0, 0, [1]), (0, 1, [2])])"
proof -
  let ?s0 = "\<lparr>acq_running = True, z_range = [0, 50, 2, 0], channels = [1, 0], img_queue = [],
        unfinished_tasks = 0, data = [], data_shape = (1, 1), n_layers = 1, refreshed = [],
        workers = [YieldImg, AppendImg], pc = Outer, yielded = []\<rparr>"
  have p: "pc ?s0 = Outer" by simp
  have n1: "no_restart [Put (0, 0, [1]), Start, Put (0, 1, [2]), Consumer, Consumer, Consumer] ?s0"
    by (simp add: yield_img_step_def start_acq_def viewer.truncate_def viewer.extend_def)
  have n2: "no_restart [Put (0, 0, [1]), Start, Put (0, 1, [2]), Consumer, Consumer, Consumer, Consumer, Stop] ?s0"
    by (simp add: yield_img_step_def start_acq_def viewer.truncate_def viewer.extend_def)
  from yield_img_behaviour [OF p n1] yield_img_behaviour [OF p n2] n2
  show ?thesis
    by (simp add: yield_img_step_def start_acq_def viewer.truncate_def viewer.extend_def) blast
qed

text \<open>
  Claim C7. A display update that returns has written exactly one slice of the stack: the
  slice at the z index of the element (an index below zero counts from the end) now holds
  what the assignment makes of the image of the element, every pixel of it is a pixel of
  the element, the stack has as many slices as before, and every other slice is what it
  was. When the slices have the shape of the clip, as the notebook allocates them, the new
  slice is the image itself. For such a stack and an element with a z index inside the
  stack, a layer index inside the viewer, the right number of pixels and a pending task in
  the queue, the update returns, unless the clip has one pixel in a row and not one row.
\<close>

theorem display_napari_one_slice:
  "(display_napari clip (Some (color, z_pos, pix)) s = Inr s' \<longrightarrow>
      (\<exists>k<length (data s). py_index (length (data s)) z_pos = Some k
         \<and> (0 \<le> z_pos \<longrightarrow> k = nat z_pos)
         \<and> length (data s') = length (data s)
         \<and> squeeze_assign (data_shape s) (clip ! 0) (clip ! 1) pix = Inr (data s' ! k)
         \<and> set (concat (data s' ! k)) \<subseteq> set pix
         \<and> (data_shape s = (clip ! 0, clip ! 1) \<longrightarrow>
              data s' ! k = reshape pix (clip ! 0) (clip ! 1) \<and> concat (data s' ! k) = pix)
         \<and> (\<forall>j<length (data s). j \<noteq> k \<longrightarrow> data s' ! j = data s ! j)))
   \<and> (1 < length clip \<and> length pix = clip ! 0 * clip ! 1
        \<and> data_shape s = (clip ! 0, clip ! 1) \<and> \<not> (clip ! 1 = 1 \<and> clip ! 0 \<noteq> 1)
        \<and> 0 \<le> z_pos \<and> z_pos < int (length (data s))
        \<and> 0 \<le> color \<and> color < int (n_layers s) \<and> 0 < unfinished_tasks s \<longrightarrow>
      display_napari clip (Some (color, z_pos, pix)) s =
        Inr (s\<lparr>data := (data s)[nat z_pos := reshape pix (clip ! 0) (clip ! 1)],
               refreshed := refreshed s @ [nat color],
               unfinished_tasks := unfinished_tasks s - 1\<rparr>))"
proof (intro conjI impI)
  assume "display_napari clip (Some (color, z_pos, pix)) s = Inr s'"
  from display_napari_Inr [OF this] obtain k slice
    where k: "py_index (length (data s)) z_pos = Some k"
      and n: "length pix = clip ! 0 * clip ! 1"
      and q: "squeeze_assign (data_shape s) (clip ! 0) (clip ! 1) pix = Inr slice"
      and d: "data s' = (data s)[k := slice]"
    by blast
  from k have lt: "k < length (data s)" by (rule py_index_less)
  have sl: "data s' ! k = slice"
    using lt by (simp add: d)
  have "0 \<le> z_pos \<longrightarrow> k = nat z_pos"
    using k by (auto simp: py_index_def split: if_splits)
  moreover have "squeeze_assign (data_shape s) (clip ! 0) (clip ! 1) pix = Inr (data s' ! k)"
    using q sl by simp
  moreover have "set (concat (data s' ! k)) \<subseteq> set pix"
    using squeeze_assign_pixels [OF q n] sl by simp
  moreover have "data_shape s = (clip ! 0, clip ! 1) \<longrightarrow>
              data s' ! k = reshape pix (clip ! 0) (clip ! 1) \<and> concat (data s' ! k) = pix"
  proof
    assume shp: "data_shape s = (clip ! 0, clip ! 1)"
    have ok: "\<not> (clip ! 1 = 1 \<and> clip ! 0 \<noteq> 1)"
    proof
      assume c: "clip ! 1 = 1 \<and> clip ! 0 \<noteq> 1"
      with n have "length pix = clip ! 0" by simp
      with c q shp show False
        by (simp add: squeeze_assign_def)
    qed
    from squeeze_assign_same_shape [OF n ok] q shp have "slice = reshape pix (clip ! 0) (clip ! 1)"
      by simp
    with sl n show "data s' ! k = reshape pix (clip ! 0) (clip ! 1) \<and> concat (data s' ! k) = pix"
      by (simp add: concat_reshape)
  qed
  moreover have "\<forall>j<length (data s). j \<noteq> k \<longrightarrow> data s' ! j = data s ! j"
    by (simp add: d)
  moreover have "length (data s') = length (data s)"
    by (simp add: d)
  ultimately show "\<exists>k<length (data s). py_index (length (data s)) z_pos = Some k
         \<and> (0 \<le> z_pos \<longrightarrow> k = nat z_pos)
         \<and> length (data s') = length (data s)
         \<and> squeeze_assign (data_shape s) (clip ! 0) (clip ! 1) pix = Inr (data s' ! k)
         \<and> set (concat (data s' ! k)) \<subseteq> set pix
         \<and> (data_shape s = (clip ! 0, clip ! 1) \<longrightarrow>
              data s' ! k = reshape pix (clip ! 0) (clip ! 1) \<and> concat (data s' ! k) = pix)
         \<and> (\<forall>j<length (data s). j \<noteq> k \<longrightarrow> data s' ! j = data s ! j)"
    using k lt by blast
next
  assume a: "1 < length clip \<and> length pix = clip ! 0 * clip ! 1
        \<and> data_shape s = (clip ! 0, clip ! 1) \<and> \<not> (clip ! 1 = 1 \<and> clip ! 0 \<noteq> 1)
        \<and> 0 \<le> z_pos \<and> z_pos < int (length (data s))
        \<and> 0 \<le> color \<and> color < int (n_layers s) \<and> 0 < unfinished_tasks s"
  then have "py_index (length (data s)) z_pos = Some (nat z_pos)"
    and "py_index (n_layers s) color = Some (nat color)"
    by (simp_all add: py_index_nonneg)
  moreover from a have "squeeze_assign (data_shape s) (clip ! 0) (clip ! 1) pix =
      Inr (reshape pix (clip ! 0) (clip ! 1))"
    using squeeze_assign_same_shape [of pix "clip ! 0" "clip ! 1"] by simp
  ultimately show "display_napari clip (Some (color, z_pos, pix)) s =
        Inr (s\<lparr>data := (data s)[nat z_pos := reshape pix (clip ! 0) (clip ! 1)],
               refreshed := refreshed s @ [nat color],
               unfinished_tasks := unfinished_tasks s - 1\<rparr>)"
    using a by (auto simp: display_napari_def Let_def)
qed

theorem display_napari_one_slice_witness:
  "display_napari [1, 2] (Some (0, 1, [5, 6]))
      \<lparr>acq_running = True, z_range = [0, 50, 2, 0], channels = [1, 0], img_queue = [],
       unfinished_tasks = 1, data = [[[0, 0]], [[0, 0]]], data_shape = (1, 2), n_layers = 1,
       refreshed = [], workers = [YieldImg, AppendImg]\<rparr> =
     Inr \<lparr>acq_running = True, z_range = [0, 50, 2, 0], channels = [1, 0], img_queue = [],
       unfinished_tasks = 0, data = [[[0, 0]], [[5, 6]]], data_shape = (1, 2), n_layers = 1,
       refreshed = [0], workers = [YieldImg, AppendImg]\<rparr>
   \<and> py_index 2 1 = Some 1
   \<and> concat ([[[0, 0]], [[5, 6]]] ! 1) = [5, 6 :: real]
   \<and> [[[0, 0]], [[5, 6]]] ! 0 = [[[0, 0]], [[0, 0 :: real]]] ! 0"
proof -
  let ?s = "\<lparr>acq_running = True, z_range = [0, 50, 2, 0], channels = [1, 0], img_queue = [],
       unfinished_tasks = 1, data = [[[0, 0]], [[0, 0]]], data_shape = (1, 2), n_layers = 1,
       refreshed = [], workers = [YieldImg, AppendImg]\<rparr>"
  let ?s' = "\<lparr>acq_running = True, z_range = [0, 50, 2, 0], channels = [1, 0], img_queue = [],
       unfinished_tasks = 0, data = [[[0, 0]], [[5, 6]]], data_shape = (1, 2), n_layers = 1,
       refreshed = [0], workers = [YieldImg, AppendImg]\<rparr>"
  from display_napari_one_slice [of "[1, 2]" 0 1 "[5, 6]" ?s ?s']
  have e: "display_napari [1, 2] (Some (0, 1, [5, 6])) ?s = Inr ?s'"
    by (simp add: reshape_def)
  with display_napari_one_slice [of "[1, 2]" 0 1 "[5, 6]" ?s ?s']
  show ?thesis
    by (simp add: py_index_def reshape_def)
qed

text \<open>
  Claim C8. With a positive number of slices and of channels and the channel counter in its
  range, \<^verbatim>\<open>place_data\<close> returns, puts the element with the old counters into the queue,
  advances the slice counter by one modulo the number of slices, advances the channel
  counter by one modulo the number of channels exactly when the slice counter is zero
  after that, and leaves both counters in their ranges.
\<close>

theorem place_data_counters:
  assumes "3 < length (z_range s)" and "1 < length (channels s)"
    and "0 < z_range s ! 2" and "0 < channels s ! 0"
    and "0 \<le> channels s ! 1" and "channels s ! 1 < channels s ! 0"
  shows "\<exists>s'. place_data img s = Inr s'
     \<and> img_queue s' = img_queue s @ [(channels s ! 1, z_range s ! 3, concat img)]
     \<and> z_range s' ! 3 = (z_range s ! 3 + 1) mod (z_range s ! 2)
     \<and> channels s' ! 1 =
         (if z_range s' ! 3 = 0 then (channels s ! 1 + 1) mod (channels s ! 0) else channels s ! 1)
     \<and> 0 \<le> z_range s' ! 3 \<and> z_range s' ! 3 < z_range s' ! 2
     \<and> 0 \<le> channels s' ! 1 \<and> channels s' ! 1 < channels s' ! 0
     \<and> z_range s' ! 2 = z_range s ! 2 \<and> channels s' ! 0 = channels s ! 0
     \<and> length (z_range s') = length (z_range s) \<and> length (channels s') = length (channels s)"
  using assms
  by (auto simp: place_data_def Let_def)

theorem place_data_counters_witness:
  "place_data [[5, 6]]
      \<lparr>acq_running = True, z_range = [0, 50, 2, 1], channels = [2, 1], img_queue = [],
       unfinished_tasks = 0, data = [], data_shape = (1, 1), n_layers = 2, refreshed = [], workers = []\<rparr> =
     Inr \<lparr>acq_running = True, z_range = [0, 50, 2, 0], channels = [2, 0],
          img_queue = [(1, 1, [5, 6])],
          unfinished_tasks = 1, data = [], data_shape = (1, 1), n_layers = 2, refreshed = [], workers = []\<rparr>
   \<and> (0::int) = (1 + 1) mod 2"
proof -
  let ?s = "\<lparr>acq_running = True, z_range = [0, 50, 2, 1], channels = [2, 1], img_queue = [],
       unfinished_tasks = 0, data = [], data_shape = (1, 1), n_layers = 2, refreshed = [], workers = []\<rparr>"
  from place_data_counters [of ?s "[[5, 6]]"]
  obtain s' where "place_data [[5, 6]] ?s = Inr s'"
    and "img_queue s' = [(1, 1, [5, 6])]" and "z_range s' ! 3 = 0" and "channels s' ! 1 = 0"
    by auto
  then show ?thesis
    by (simp add: place_data_def Let_def)
qed

text \<open>
  Claim C9. Pressing Start while the flag is set leaves the program state as it is: no
  worker is started, the flag keeps its value and the slice counter is not reset. So the
  state after a Start that returns is not changed by a second Start.
\<close>

theorem start_acq_idempotent:
  "(acq_running s \<longrightarrow> snd (start_acq s) = Inr s)
   \<and> (snd (start_acq s) = Inr s1 \<longrightarrow> snd (start_acq s1) = Inr s1)"
  by (auto simp: start_acq_def split: if_splits)

theorem start_acq_idempotent_witness:
  "snd (start_acq \<lparr>acq_running = False, z_range = [0, 50, 200, 7], channels = [1, 0],
          img_queue = [], unfinished_tasks = 0, data = [], data_shape = (1, 1), n_layers = 1, refreshed = [],
          workers = []\<rparr>) =
     Inr \<lparr>acq_running = True, z_range = [0, 50, 200, 0], channels = [1, 0],
          img_queue = [], unfinished_tasks = 0, data = [], data_shape = (1, 1), n_layers = 1, refreshed = [],
          workers = [YieldImg, AppendImg]\<rparr>
   \<and> acq_running \<lparr>acq_running = True, z_range = [0, 50, 200, 0], channels = [1, 0],
          img_queue = [], unfinished_tasks = 0, data = [], data_shape = (1, 1), n_layers = 1, refreshed = [],
          workers = [YieldImg, AppendImg]\<rparr>
   \<and> snd (start_acq \<lparr>acq_running = True, z_range = [0, 50, 200, 0], channels = [1, 0],
          img_queue = [], unfinished_tasks = 0, data = [], data_shape = (1, 1), n_layers = 1, refreshed = [],
          workers = [YieldImg, AppendImg]\<rparr>) =
     Inr \<lparr>acq_running = True, z_range = [0, 50, 200, 0], channels = [1, 0],
          img_queue = [], unfinished_tasks = 0, data = [], data_shape = (1, 1), n_layers = 1, refreshed = [],
          workers = [YieldImg, AppendImg]\<rparr>"
proof -
  let ?s = "\<lparr>acq_running = False, z_range = [0, 50, 200, 7], channels = [1, 0],
          img_queue = [], unfinished_tasks = 0, data = [], data_shape = (1, 1), n_layers = 1, refreshed = [],
          workers = []\<rparr>"
  let ?s1 = "\<lparr>acq_running = True, z_range = [0, 50, 200, 0], channels = [1, 0],
          img_queue = [], unfinished_tasks = 0, data = [], data_shape = (1, 1), n_layers = 1, refreshed = [],
          workers = [YieldImg, AppendImg]\<rparr>"
  have e: "snd (start_acq ?s) = Inr ?s1"
    by (simp add: start_acq_def)
  with start_acq_idempotent [of ?s ?s1] show ?thesis
    by simp
qed

end
